theory Spec2Isabelle
  imports Complex_Main "HOL-Library.Sublist" "HOL-Library.Option_ord" "HOL-Library.Multiset"
    "HOL-Library.Word"
begin

section \<open>JavaScript values used by the request handlers\<close>

text \<open>
  The handlers of the server (\<^verbatim>\<open>app.get('/api/search-flatmates', ...)\<close> and the
  routes after it) read request parameters that are either missing (\<^verbatim>\<open>undefined\<close>)
  or strings. A parameter is \<open>string option\<close>; the test \<^verbatim>\<open>if (x)\<close> holds for a
  string that is not empty. A string of a request or of a listing is the list of the
  bytes of its UTF-8 encoding.
\<close>

definition truthy :: "string option \<Rightarrow> bool" where
  "truthy p = (case p of None \<Rightarrow> False | Some s \<Rightarrow> s \<noteq> [])"

text \<open>
  The numbers the search handler computes are doubles with an integral value, the two
  zeros, the two infinities and \<^verbatim>\<open>NaN\<close>. \<open>Num 0\<close> is the positive zero; a \<open>Num n\<close>
  that a function below returns has a value \<open>n\<close> that a double represents.
\<close>

datatype jsnum = Num int | NegZero | NaN | Infinity | NegInfinity

text \<open>
  The double nearest to a natural number, ties to the even mantissa of 53 bits;
  \<open>None\<close> when the result is beyond the largest double.
\<close>

fun bit_length :: "nat \<Rightarrow> nat" where
  "bit_length n = (if n = 0 then 0 else Suc (bit_length (n div 2)))"

declare bit_length.simps [simp del]

definition round_nat :: "nat \<Rightarrow> nat option" where
  "round_nat n =
     (let e = bit_length n - 53;
          q = n div 2 ^ e;
          r = n mod 2 ^ e;
          up = (2 ^ e < 2 * r \<or> (2 * r = 2 ^ e \<and> odd q));
          v = (if up then q + 1 else q) * 2 ^ e
      in if 2 ^ 1024 \<le> v then None else Some v)"

definition to_double :: "int \<Rightarrow> jsnum" where
  "to_double i =
     (if i = 0 then Num 0
      else case round_nat (nat \<bar>i\<bar>) of
             None \<Rightarrow> (if i < 0 then NegInfinity else Infinity)
           | Some v \<Rightarrow> Num (if i < 0 then - int v else int v))"

text \<open>
  White space at the start of a string, as \<^verbatim>\<open>parseInt\<close> skips it: tab, line feed,
  vertical tab, form feed, carriage return, space, and in UTF-8 the no-break space
  U+00A0, U+1680, U+2000 to U+200A, the separators U+2028 and U+2029, U+202F, U+205F,
  U+3000 and the byte order mark U+FEFF.
\<close>

definition is_ascii_space :: "char \<Rightarrow> bool" where
  "is_ascii_space c = (c \<in> set [CHR 0x09, CHR 0x0A, CHR 0x0B, CHR 0x0C, CHR 0x0D, CHR '' ''])"

definition is_space2 :: "char \<Rightarrow> char \<Rightarrow> bool" where
  "is_space2 a b = (a = CHR 0xC2 \<and> b = CHR 0xA0)"

definition is_space3 :: "char \<Rightarrow> char \<Rightarrow> char \<Rightarrow> bool" where
  "is_space3 a b c =
     ((a = CHR 0xE1 \<and> b = CHR 0x9A \<and> c = CHR 0x80)
      \<or> (a = CHR 0xE2 \<and> b = CHR 0x80
          \<and> ((128 \<le> (of_char c :: nat) \<and> (of_char c :: nat) \<le> 138)
             \<or> c = CHR 0xA8 \<or> c = CHR 0xA9 \<or> c = CHR 0xAF))
      \<or> (a = CHR 0xE2 \<and> b = CHR 0x81 \<and> c = CHR 0x9F)
      \<or> (a = CHR 0xE3 \<and> b = CHR 0x80 \<and> c = CHR 0x80)
      \<or> (a = CHR 0xEF \<and> b = CHR 0xBB \<and> c = CHR 0xBF))"

fun skip_js_space :: "string \<Rightarrow> string" where
  "skip_js_space (a # b # c # cs) =
     (if is_ascii_space a then skip_js_space (b # c # cs)
      else if is_space2 a b then skip_js_space (c # cs)
      else if is_space3 a b c then skip_js_space cs
      else a # b # c # cs)"
| "skip_js_space [a, b] =
     (if is_ascii_space a then skip_js_space [b]
      else if is_space2 a b then []
      else [a, b])"
| "skip_js_space [a] = (if is_ascii_space a then [] else [a])"
| "skip_js_space [] = []"

text \<open>The value of a character as a digit in radix \<open>r\<close>, if it is one.\<close>

definition digit_val :: "nat \<Rightarrow> char \<Rightarrow> nat option" where
  "digit_val r c =
     (let n = (of_char c :: nat);
          v = (if 48 \<le> n \<and> n \<le> 57 then Some (n - 48)
               else if 97 \<le> n \<and> n \<le> 122 then Some (n - 87)
               else if 65 \<le> n \<and> n \<le> 90 then Some (n - 55)
               else None)
      in case v of None \<Rightarrow> None | Some d \<Rightarrow> (if d < r then Some d else None))"

definition is_digit :: "nat \<Rightarrow> char \<Rightarrow> bool" where
  "is_digit r c = (digit_val r c \<noteq> None)"

definition digits_value :: "nat \<Rightarrow> string \<Rightarrow> nat" where
  "digits_value r z = foldl (\<lambda>acc c. acc * r + (case digit_val r c of Some d \<Rightarrow> d | None \<Rightarrow> 0)) 0 z"

fun strip_sign :: "string \<Rightarrow> bool \<times> string" where
  "strip_sign (c # cs) =
     (if c = CHR ''-'' then (True, cs) else if c = CHR ''+'' then (False, cs) else (False, c # cs))"
| "strip_sign [] = (False, [])"

fun strip_hex_prefix :: "string \<Rightarrow> nat \<times> string" where
  "strip_hex_prefix (a # b # cs) =
     (if a = CHR ''0'' \<and> (b = CHR ''x'' \<or> b = CHR ''X'') then (16, cs) else (10, a # b # cs))"
| "strip_hex_prefix cs = (10, cs)"

text \<open>
  \<^verbatim>\<open>parseInt(s)\<close> with no radix: leading white space is dropped, then a sign, then
  a \<^verbatim>\<open>0x\<close> prefix (which selects radix 16); the longest run of digits that follows
  is read, whatever comes after it, and its value is rounded to a double; no digit at
  all gives \<^verbatim>\<open>NaN\<close>, and the digits of zero after a minus sign give the negative
  zero.
\<close>

definition parseInt :: "string \<Rightarrow> jsnum" where
  "parseInt s =
     (let (neg, s2) = strip_sign (skip_js_space s);
          (r, s3) = strip_hex_prefix s2;
          z = takeWhile (is_digit r) s3;
          m = digits_value r z
      in if z = [] then NaN
         else if m = 0 then (if neg then NegZero else Num 0)
         else to_double (if neg then - int m else int m))"

text \<open>The sign, the zeros and the infinities of a number.\<close>

fun js_negative :: "jsnum \<Rightarrow> bool" where
  "js_negative (Num n) = (n < 0)"
| "js_negative NegZero = True"
| "js_negative NegInfinity = True"
| "js_negative _ = False"

fun js_zero :: "jsnum \<Rightarrow> bool" where
  "js_zero (Num n) = (n = 0)"
| "js_zero NegZero = True"
| "js_zero _ = False"

fun js_infinite :: "jsnum \<Rightarrow> bool" where
  "js_infinite Infinity = True"
| "js_infinite NegInfinity = True"
| "js_infinite _ = False"

fun js_int :: "jsnum \<Rightarrow> int" where
  "js_int (Num n) = n"
| "js_int _ = 0"

text \<open>The operators \<^verbatim>\<open><\<close> and \<^verbatim>\<open>></\<close>: false when a side is \<^verbatim>\<open>NaN\<close>.\<close>

fun js_lt :: "jsnum \<Rightarrow> jsnum \<Rightarrow> bool" where
  "js_lt NaN b = False"
| "js_lt a NaN = False"
| "js_lt a NegInfinity = False"
| "js_lt NegInfinity b = True"
| "js_lt Infinity b = False"
| "js_lt a Infinity = True"
| "js_lt a b = (js_int a < js_int b)"

definition js_gt :: "jsnum \<Rightarrow> jsnum \<Rightarrow> bool" where
  "js_gt a b = js_lt b a"

text \<open>\<^verbatim>\<open>x - 1\<close> and \<^verbatim>\<open>x * y\<close>, each rounded to a double.\<close>

fun js_sub1 :: "jsnum \<Rightarrow> jsnum" where
  "js_sub1 (Num p) = to_double (p - 1)"
| "js_sub1 NegZero = Num (- 1)"
| "js_sub1 x = x"

definition js_mul :: "jsnum \<Rightarrow> jsnum \<Rightarrow> jsnum" where
  "js_mul a b =
     (if a = NaN \<or> b = NaN then NaN
      else if (js_infinite a \<and> js_zero b) \<or> (js_zero a \<and> js_infinite b) then NaN
      else if js_infinite a \<or> js_infinite b
        then (if js_negative a \<noteq> js_negative b then NegInfinity else Infinity)
      else if js_zero a \<or> js_zero b
        then (if js_negative a \<noteq> js_negative b then NegZero else Num 0)
      else to_double (js_int a * js_int b))"

text \<open>\<^verbatim>\<open>(pageNum - 1) * limitNum\<close>\<close>

definition js_skip :: "jsnum \<Rightarrow> jsnum \<Rightarrow> jsnum" where
  "js_skip p l = js_mul (js_sub1 p) l"

text \<open>
  \<^verbatim>\<open>Math.ceil(totalCount / limitNum)\<close>, where \<^verbatim>\<open>totalCount\<close> is a count (below
  \<open>2 ^ 52\<close>, so that the rounding of the quotient does not reach an integer): a
  division by a zero gives an infinity, or \<^verbatim>\<open>NaN\<close> for \<^verbatim>\<open>0 / 0\<close>; a quotient
  between \<open>- 1\<close> and \<open>0\<close> has the negative zero as ceiling.
\<close>

fun js_ceil_div :: "nat \<Rightarrow> jsnum \<Rightarrow> jsnum" where
  "js_ceil_div c (Num l) =
     (if l = 0 then (if c = 0 then NaN else Infinity)
      else if (c = 0 \<and> l < 0) \<or> \<lceil>(of_nat c :: rat) / of_int l\<rceil> = 0 \<and> 0 < c then NegZero
      else Num \<lceil>(of_nat c :: rat) / of_int l\<rceil>)"
| "js_ceil_div c NegZero = (if c = 0 then NaN else NegInfinity)"
| "js_ceil_div c Infinity = Num 0"
| "js_ceil_div c NegInfinity = NegZero"
| "js_ceil_div c NaN = NaN"

section \<open>The data model\<close>

text \<open>
  An identifier is an \<^verbatim>\<open>ObjectId\<close>, twelve bytes. \<open>toString\<close> writes it as 24
  hexadecimal digits in lower case, which is how the session holds the user's
  identifier; \<open>castObjectId\<close> is the cast that Mongoose applies to a string where the
  schema asks for an \<^verbatim>\<open>ObjectId\<close>: a string of 24 hexadecimal digits, in either
  case, is read, and any other string makes the operation fail (releases of the library
  before its fifth also read a string of twelve characters, as twelve bytes).
\<close>

type_synonym oid = "96 word"

definition hex_char :: "nat \<Rightarrow> char" where
  "hex_char d = ''0123456789abcdef'' ! d"

fun hex_digits :: "nat \<Rightarrow> nat \<Rightarrow> string" where
  "hex_digits 0 n = []"
| "hex_digits (Suc k) n = hex_digits k (n div 16) @ [hex_char (n mod 16)]"

definition toString :: "oid \<Rightarrow> string" where
  "toString w = hex_digits 24 (unat w)"

definition castObjectId :: "string \<Rightarrow> oid option" where
  "castObjectId s =
     (if length s = 24 \<and> list_all (is_digit 16) s then Some (of_nat (digits_value 16 s))
      else None)"

text \<open>
  Documents of the collections \<^verbatim>\<open>Requirement\<close>, \<^verbatim>\<open>SavedPost\<close>,
  \<^verbatim>\<open>Conversation\<close> and \<^verbatim>\<open>Message\<close>, with the fields of their schemas
  (\<^verbatim>\<open>postSchema\<close>, \<^verbatim>\<open>savedPostSchema\<close>, \<^verbatim>\<open>conversationSchema\<close>,
  \<^verbatim>\<open>messageSchema\<close>); each field name carries a prefix for its collection. A date
  is a number of milliseconds, a price a finite number. A field with no
  \<^verbatim>\<open>required\<close> and no default may be missing.

  The text of a message is a list of UTF-16 code units, the units that
  \<^verbatim>\<open>substring\<close> counts. The store holds texts in UTF-8: when a text is written,
  a surrogate that has no partner is replaced by U+FFFD.
\<close>

type_synonym text16 = "16 word list"

definition is_high :: "16 word \<Rightarrow> bool" where
  "is_high c = (0xD800 \<le> c \<and> c \<le> 0xDBFF)"

definition is_low :: "16 word \<Rightarrow> bool" where
  "is_low c = (0xDC00 \<le> c \<and> c \<le> 0xDFFF)"

fun store_text :: "text16 \<Rightarrow> text16" where
  "store_text (a # b # cs) =
     (if is_high a \<and> is_low b then a # b # store_text cs
      else if is_high a \<or> is_low a then 0xFFFD # store_text (b # cs)
      else a # store_text (b # cs))"
| "store_text [a] = [if is_high a \<or> is_low a then 0xFFFD else a]"
| "store_text [] = []"

record listing =
  l_id :: oid
  l_userId :: oid
  l_images :: "string list"
  l_price :: "rat option"
  l_furnishing :: "string option"
  l_state :: "string option"
  l_city :: "string option"
  l_location :: "string option"
  l_prefs :: "string list"
  l_gender :: "string option"
  l_createdAt :: int

record savedPost =
  sp_id :: oid
  sp_userId :: oid
  sp_postId :: oid
  sp_savedAt :: int

record conversation =
  c_id :: oid
  c_participants :: "oid list"
  c_lastMessage :: text16
  c_lastMessageTime :: int
  c_createdAt :: int

record message =
  m_id :: oid
  m_conversationId :: oid
  m_senderId :: oid
  m_receiverId :: oid
  m_message :: text16
  m_read :: bool
  m_createdAt :: int

text \<open>
  What a handler answers when it does not succeed: status 400 (\<open>InvalidOperation\<close>),
  403 (\<open>AccessDenied\<close>), 404 (\<open>NotFound\<close>), and 500 (\<open>ServerError\<close>), the answer of
  every \<^verbatim>\<open>catch\<close> block, which is where a rejected promise of the store or of the
  image service ends.
\<close>

datatype error = InvalidOperation | AccessDenied | NotFound | ServerError

fun status_code :: "error \<Rightarrow> nat" where
  "status_code InvalidOperation = 400"
| "status_code AccessDenied = 403"
| "status_code NotFound = 404"
| "status_code ServerError = 500"

text \<open>
  The field \<^verbatim>\<open>success\<close> of the answer, and whether the answer is the one of the
  \<^verbatim>\<open>catch\<close> block, that is, whether an exception was raised.
\<close>

definition success :: "error + 'a \<Rightarrow> bool" where
  "success r = (case r of Inl e \<Rightarrow> False | Inr v \<Rightarrow> True)"

definition raised :: "error + 'a \<Rightarrow> bool" where
  "raised r = (case r of Inl e \<Rightarrow> e = ServerError | Inr v \<Rightarrow> False)"

section \<open>Search: from the request to the store query\<close>

text \<open>
  The parameters of \<^verbatim>\<open>GET /api/search-flatmates\<close>. \<^verbatim>\<open>preferences\<close> is one
  string or, when the key is repeated, an array of strings; the other parameters are
  taken when they are single strings.
\<close>

datatype prefs_param = One string | Many "string list"

record request =
  state :: "string option"
  city :: "string option"
  location :: "string option"
  minPrice :: "string option"
  maxPrice :: "string option"
  furnishing :: "string option"
  gender :: "string option"
  preferences :: "prefs_param option"
  sortBy :: "string option"
  page :: "string option"
  limit :: "string option"

text \<open>The filter object \<^verbatim>\<open>query\<close>: a key that was not set is \<open>None\<close>.\<close>

record price_cond =
  gte :: "jsnum option"
  lte :: "jsnum option"

record query =
  q_state :: "string option"
  q_city :: "string option"
  q_location :: "string option"
  q_price :: "price_cond option"
  q_furnishing :: "string option"
  q_gender :: "string option"
  q_prefs :: "string list option"

definition keep_truthy :: "string option \<Rightarrow> string option" where
  "keep_truthy p = (if truthy p then p else None)"

definition price_filter :: "string option \<Rightarrow> string option \<Rightarrow> price_cond option" where
  "price_filter mn mx =
     (if truthy mn \<or> truthy mx
      then Some \<lparr> gte = (if truthy mn then map_option parseInt mn else None),
                  lte = (if truthy mx then map_option parseInt mx else None) \<rparr>
      else None)"

fun prefsArray :: "prefs_param option \<Rightarrow> string list option" where
  "prefsArray None = None"
| "prefsArray (Some (One s)) = (if s = [] then None else Some [s])"
| "prefsArray (Some (Many ps)) = Some ps"

definition buildQuery :: "request \<Rightarrow> query" where
  "buildQuery r =
     \<lparr> q_state = keep_truthy (state r),
       q_city = keep_truthy (city r),
       q_location = keep_truthy (location r),
       q_price = price_filter (minPrice r) (maxPrice r),
       q_furnishing = keep_truthy (furnishing r),
       q_gender = keep_truthy (gender r),
       q_prefs = prefsArray (preferences r) \<rparr>"

datatype sort_options = CreatedAtDesc | CreatedAtAsc | PriceAsc | PriceDesc

definition sortOptions :: "request \<Rightarrow> sort_options" where
  "sortOptions r =
     (case sortBy r of
        None \<Rightarrow> CreatedAtDesc
      | Some s \<Rightarrow>
          if s = ''newest'' then CreatedAtDesc
          else if s = ''oldest'' then CreatedAtAsc
          else if s = ''price-low'' then PriceAsc
          else if s = ''price-high'' then PriceDesc
          else CreatedAtDesc)"

text \<open>\<^verbatim>\<open>page = 1\<close> and \<^verbatim>\<open>limit = 6\<close> are the defaults of a missing parameter only.\<close>

definition pageNum :: "request \<Rightarrow> jsnum" where
  "pageNum r = (case page r of None \<Rightarrow> Num 1 | Some s \<Rightarrow> parseInt s)"

definition limitNum :: "request \<Rightarrow> jsnum" where
  "limitNum r = (case limit r of None \<Rightarrow> Num 6 | Some s \<Rightarrow> parseInt s)"

definition skip :: "request \<Rightarrow> jsnum" where
  "skip r = js_skip (pageNum r) (limitNum r)"

section \<open>The document store, as the search handler uses it\<close>

text \<open>
  The store is the database behind Mongoose. What its engine for regular expressions
  does, and what it does with a skip or a limit that is no integer of 32 bits, is not
  fixed here but taken as it comes, in a record:
  \<^item> \<open>regex_string p\<close>, for a condition \<^verbatim>\<open>{ $regex: p, $options: 'i' }\<close>: \<open>None\<close>
    when the store refuses the pattern, else the test that tells whether a text holds a
    match of the pattern, letters compared without case;
  \<^item> \<open>regex_object p\<close>, the same for \<^verbatim>\<open>new RegExp(p, 'i')\<close>: \<open>None\<close> when the
    constructor throws or the store refuses the expression;
  \<^item> \<open>case_fold\<close>, the way the engine compares letters without case: it maps a text
    to the text in which each letter is replaced by the one that stands for both of its
    cases;
  \<^item> \<open>other_window\<close>, what the store returns for a skip and a limit that are not both
    integers of 32 bits: \<open>None\<close> when it rejects them.
\<close>

record env =
  regex_string :: "string \<Rightarrow> (string \<Rightarrow> bool) option"
  regex_object :: "string \<Rightarrow> (string \<Rightarrow> bool) option"
  case_fold :: "string \<Rightarrow> string"
  other_window :: "jsnum \<Rightarrow> jsnum \<Rightarrow> listing list \<Rightarrow> listing list option"

text \<open>A condition on a field that the document does not have matches nothing.\<close>

definition field_regex :: "(string \<Rightarrow> bool) option \<Rightarrow> string option \<Rightarrow> bool" where
  "field_regex f v = (case f of None \<Rightarrow> False | Some g \<Rightarrow> (case v of None \<Rightarrow> False | Some t \<Rightarrow> g t))"

fun price_ge :: "rat \<Rightarrow> jsnum option \<Rightarrow> bool" where
  "price_ge v None = True"
| "price_ge v (Some (Num n)) = (of_int n \<le> v)"
| "price_ge v (Some NegZero) = (0 \<le> v)"
| "price_ge v (Some Infinity) = False"
| "price_ge v (Some NegInfinity) = True"
| "price_ge v (Some NaN) = False"

fun price_le :: "rat \<Rightarrow> jsnum option \<Rightarrow> bool" where
  "price_le v None = True"
| "price_le v (Some (Num n)) = (v \<le> of_int n)"
| "price_le v (Some NegZero) = (v \<le> 0)"
| "price_le v (Some Infinity) = True"
| "price_le v (Some NegInfinity) = False"
| "price_le v (Some NaN) = False"

definition price_matches :: "price_cond \<Rightarrow> rat option \<Rightarrow> bool" where
  "price_matches pc v =
     (case v of None \<Rightarrow> False
      | Some x \<Rightarrow> (gte pc \<noteq> None \<or> lte pc \<noteq> None) \<and> price_ge x (gte pc) \<and> price_le x (lte pc))"

text \<open>
  \<^verbatim>\<open>{ $in: [regex, ...] }\<close> on the array field \<^verbatim>\<open>prefs\<close>: some element of the
  array matches some of the patterns.
\<close>

definition prefs_in :: "env \<Rightarrow> string list \<Rightarrow> string list \<Rightarrow> bool" where
  "prefs_in e ps tags =
     list_ex (\<lambda>p. case regex_object e p of None \<Rightarrow> False | Some g \<Rightarrow> list_ex g tags) ps"

definition matches :: "env \<Rightarrow> query \<Rightarrow> listing \<Rightarrow> bool" where
  "matches e q l =
     ((case q_state q of None \<Rightarrow> True | Some p \<Rightarrow> field_regex (regex_string e p) (l_state l))
      \<and> (case q_city q of None \<Rightarrow> True | Some p \<Rightarrow> field_regex (regex_string e p) (l_city l))
      \<and> (case q_location q of None \<Rightarrow> True
          | Some p \<Rightarrow> field_regex (regex_string e p) (l_location l))
      \<and> (case q_price q of None \<Rightarrow> True | Some pc \<Rightarrow> price_matches pc (l_price l))
      \<and> (case q_furnishing q of None \<Rightarrow> True | Some f \<Rightarrow> l_furnishing l = Some f)
      \<and> (case q_gender q of None \<Rightarrow> True | Some g \<Rightarrow> l_gender l = Some g)
      \<and> (case q_prefs q of None \<Rightarrow> True | Some ps \<Rightarrow> prefs_in e ps (l_prefs l)))"

text \<open>
  Mongoose casts the values of a query to the types of the schema before it sends the
  query: \<^verbatim>\<open>NaN\<close> is no \<^verbatim>\<open>Number\<close>, the cast fails and the promise is
  rejected.
\<close>

definition bound_castable :: "jsnum option \<Rightarrow> bool" where
  "bound_castable b = (b \<noteq> Some NaN)"

definition query_castable :: "query \<Rightarrow> bool" where
  "query_castable q =
     (case q_price q of None \<Rightarrow> True
      | Some pc \<Rightarrow> bound_castable (gte pc) \<and> bound_castable (lte pc))"

text \<open>The patterns of the query are accepted: no constructor throws, the store refuses none.\<close>

definition opt_accepted :: "env \<Rightarrow> string option \<Rightarrow> bool" where
  "opt_accepted e p = (case p of None \<Rightarrow> True | Some s \<Rightarrow> regex_string e s \<noteq> None)"

definition query_accepted :: "env \<Rightarrow> query \<Rightarrow> bool" where
  "query_accepted e q =
     (opt_accepted e (q_state q) \<and> opt_accepted e (q_city q) \<and> opt_accepted e (q_location q)
      \<and> (case q_prefs q of None \<Rightarrow> True | Some ps \<Rightarrow> list_all (\<lambda>p. regex_object e p \<noteq> None) ps))"

text \<open>
  The sort. Ascending order puts a missing price first. The store promises no order
  between documents with equal keys; the model keeps them in the order of the
  collection (reversed when the sort is descending).
\<close>

fun sort_listings :: "sort_options \<Rightarrow> listing list \<Rightarrow> listing list" where
  "sort_listings CreatedAtAsc xs = sort_key l_createdAt xs"
| "sort_listings CreatedAtDesc xs = rev (sort_key l_createdAt xs)"
| "sort_listings PriceAsc xs = sort_key l_price xs"
| "sort_listings PriceDesc xs = rev (sort_key l_price xs)"

text \<open>
  \<^verbatim>\<open>.skip(skip).limit(limitNum)\<close> on the sorted matches, for a skip and a limit that
  are integers of 32 bits (a negative zero counts as zero): the store rejects a negative
  skip; a limit of \<open>0\<close> is no limit; a negative limit \<open>- n\<close> is sent as the limit \<open>n\<close>
  of a single batch, which holds 101 documents at most. Every other skip and limit is
  left to \<open>other_window\<close>.
\<close>

fun small :: "jsnum \<Rightarrow> int option" where
  "small (Num n) = (if - (2 ^ 31) \<le> n \<and> n < 2 ^ 31 then Some n else None)"
| "small NegZero = Some 0"
| "small _ = None"

definition store_window :: "env \<Rightarrow> jsnum \<Rightarrow> jsnum \<Rightarrow> listing list \<Rightarrow> listing list option" where
  "store_window e sk lm xs =
     (case (small sk, small lm) of
        (Some s, Some n) \<Rightarrow>
          if s < 0 then None
          else Some (let ys = drop (nat s) xs
                     in if n = 0 then ys
                        else if n < 0 then take (min (nat (- n)) 101) ys
                        else take (nat n) ys)
      | _ \<Rightarrow> other_window e sk lm xs)"

text \<open>
  \<^verbatim>\<open>Requirement.find(query).sort(sortOptions).skip(skip).limit(limitNum)\<close> and
  \<^verbatim>\<open>Requirement.countDocuments(query)\<close>: each is rejected when the query cannot be
  cast or a pattern is not accepted.
\<close>

definition find_page ::
  "env \<Rightarrow> listing list \<Rightarrow> query \<Rightarrow> sort_options \<Rightarrow> jsnum \<Rightarrow> jsnum \<Rightarrow> error + listing list" where
  "find_page e db q so sk lm =
     (if \<not> query_castable q \<or> \<not> query_accepted e q then Inl ServerError
      else case store_window e sk lm (sort_listings so (filter (matches e q) db)) of
             None \<Rightarrow> Inl ServerError
           | Some xs \<Rightarrow> Inr xs)"

definition countDocuments :: "env \<Rightarrow> listing list \<Rightarrow> query \<Rightarrow> error + nat" where
  "countDocuments e db q =
     (if \<not> query_castable q \<or> \<not> query_accepted e q then Inl ServerError
      else Inr (length (filter (matches e q) db)))"

section \<open>The search handler\<close>

record pagination =
  currentPage :: jsnum
  totalPages :: jsnum
  totalCount :: nat
  hasNextPage :: bool
  hasPrevPage :: bool
  p_limit :: jsnum

record search_response =
  data :: "listing list"
  pagination :: pagination

text \<open>
  \<^verbatim>\<open>app.get('/api/search-flatmates', ...)\<close>. Both store calls are awaited together:
  when one is rejected, or a \<^verbatim>\<open>new RegExp\<close> throws, the \<^verbatim>\<open>catch\<close> block answers
  500. The listings are returned as the store gives them (the owner's name and e-mail
  that \<^verbatim>\<open>populate\<close> adds are left out).
\<close>

definition search :: "env \<Rightarrow> listing list \<Rightarrow> request \<Rightarrow> error + search_response" where
  "search e db r =
     (let query = buildQuery r;
          pn = pageNum r;
          ln = limitNum r
      in case find_page e db query (sortOptions r) (skip r) ln of
           Inl err \<Rightarrow> Inl ServerError
         | Inr listings \<Rightarrow>
             (case countDocuments e db query of
                Inl err \<Rightarrow> Inl ServerError
              | Inr cnt \<Rightarrow>
                  (let tp = js_ceil_div cnt ln
                   in Inr \<lparr> data = listings,
                        pagination = \<lparr> currentPage = pn, totalPages = tp, totalCount = cnt,
                                       hasNextPage = js_lt pn tp, hasPrevPage = js_gt pn (Num 1),
                                       p_limit = ln \<rparr> \<rparr>)))"

section \<open>The collections and the handlers that change them\<close>

record store =
  posts :: "listing list"
  savedPosts :: "savedPost list"
  conversations :: "conversation list"
  messages :: "message list"

text \<open>\<^verbatim>\<open>deleteOne\<close> removes the first document that satisfies the filter.\<close>

fun delete_first :: "('a \<Rightarrow> bool) \<Rightarrow> 'a list \<Rightarrow> 'a list" where
  "delete_first P [] = []"
| "delete_first P (x # xs) = (if P x then xs else x # delete_first P xs)"

subsection \<open>Deleting a post\<close>

definition upload_folder :: string where
  "upload_folder = ''flatmate-finder-uploads/''"

text \<open>
  \<^verbatim>\<open>imageUrl.match(/flatmate-finder-uploads\/([^.]+)/)\<close>: the first place where
  the folder name is followed by at least one character that is no dot; the group is
  the longest run of such characters.
\<close>

fun match_upload :: "string \<Rightarrow> string option" where
  "match_upload [] = None"
| "match_upload (c # cs) =
     (let grp = takeWhile (\<lambda>x. x \<noteq> CHR ''.'') (drop (length upload_folder) (c # cs))
      in if take (length upload_folder) (c # cs) = upload_folder \<and> grp \<noteq> []
         then Some grp else match_upload cs)"

text \<open>The public ids for which \<^verbatim>\<open>cloudinary.uploader.destroy\<close> is called.\<close>

definition destroy_calls :: "listing \<Rightarrow> string list" where
  "destroy_calls post = map (\<lambda>g. upload_folder @ g) (List.map_filter match_upload (l_images post))"

text \<open>
  \<^verbatim>\<open>app.delete('/api/my-posts/:postId', ...)\<close>. \<open>postId\<close> is the segment of the
  path, \<open>userId\<close> the identifier of the session. When \<open>postId\<close> is no
  \<^verbatim>\<open>ObjectId\<close> the cast of the filter fails, \<^verbatim>\<open>findOne\<close> is rejected and the
  \<^verbatim>\<open>catch\<close> block answers 500. The image service is outside the program: \<open>fails\<close>
  tells for which public id its callback reports an error. The promise of such a call is
  rejected, \<^verbatim>\<open>await Promise.all(deletePromises)\<close> throws, and the \<^verbatim>\<open>catch\<close>
  block answers 500 before \<^verbatim>\<open>deleteOne\<close> is reached.
\<close>

definition deleteOwned ::
  "(string \<Rightarrow> bool) \<Rightarrow> store \<Rightarrow> string \<Rightarrow> oid \<Rightarrow> (error + unit) \<times> store" where
  "deleteOwned fails st postId userId =
     (case castObjectId postId of
        None \<Rightarrow> (Inl ServerError, st)
      | Some pid \<Rightarrow>
          (case find (\<lambda>p. l_id p = pid \<and> l_userId p = userId) (posts st) of
             None \<Rightarrow> (Inl AccessDenied, st)
           | Some post \<Rightarrow>
               if l_images post \<noteq> [] \<and> list_ex fails (destroy_calls post)
               then (Inl ServerError, st)
               else (Inr (),
                     st\<lparr>posts :=
                          delete_first (\<lambda>p. l_id p = pid \<and> l_userId p = userId) (posts st)\<rparr>)))"

subsection \<open>Saving a post\<close>

datatype save_reply = Saved | AlreadySaved

text \<open>
  \<^verbatim>\<open>savedPostSchema.index({ userId: 1, postId: 1 }, { unique: true })\<close>: the store
  refuses a second row with the same pair.
\<close>

definition same_pair :: "oid \<Rightarrow> oid \<Rightarrow> savedPost \<Rightarrow> bool" where
  "same_pair userId postId s = (sp_userId s = userId \<and> sp_postId s = postId)"

definition insert_savedPost :: "savedPost list \<Rightarrow> savedPost \<Rightarrow> error + savedPost list" where
  "insert_savedPost rows row =
     (if list_ex (same_pair (sp_userId row) (sp_postId row)) rows then Inl ServerError
      else Inr (rows @ [row]))"

text \<open>
  \<^verbatim>\<open>app.post('/api/save-post/:postId', ...)\<close>. \<open>postId\<close> is the segment of the
  path; when it is no \<^verbatim>\<open>ObjectId\<close>, \<^verbatim>\<open>findById\<close> is rejected and the answer is
  500. \<open>new_id\<close> and \<open>now\<close> are the identifier and the date that the new document
  receives.
\<close>

definition savePost :: "store \<Rightarrow> oid \<Rightarrow> string \<Rightarrow> oid \<Rightarrow> int \<Rightarrow> (error + save_reply) \<times> store" where
  "savePost st userId postId new_id now =
     (case castObjectId postId of
        None \<Rightarrow> (Inl ServerError, st)
      | Some pid \<Rightarrow>
          (case find (\<lambda>p. l_id p = pid) (posts st) of
             None \<Rightarrow> (Inl NotFound, st)
           | Some post \<Rightarrow>
               (case find (same_pair userId pid) (savedPosts st) of
                  Some existingSave \<Rightarrow> (Inr AlreadySaved, st)
                | None \<Rightarrow>
                    (case insert_savedPost (savedPosts st)
                            \<lparr> sp_id = new_id, sp_userId = userId, sp_postId = pid,
                              sp_savedAt = now \<rparr> of
                       Inl e \<Rightarrow> (Inl ServerError, st)
                     | Inr rows \<Rightarrow> (Inr Saved, st\<lparr>savedPosts := rows\<rparr>)))))"

subsection \<open>Conversations and messages\<close>

text \<open>\<^verbatim>\<open>{ participants: { $all: [userId, otherUserId] } }\<close>\<close>

definition has_both :: "oid \<Rightarrow> oid \<Rightarrow> conversation \<Rightarrow> bool" where
  "has_both a b c = (a \<in> set (c_participants c) \<and> b \<in> set (c_participants c))"

text \<open>\<^verbatim>\<open>{ _id: conversationId, participants: userId }\<close>\<close>

definition is_member :: "oid \<Rightarrow> oid \<Rightarrow> conversation \<Rightarrow> bool" where
  "is_member conversationId userId c = (c_id c = conversationId \<and> userId \<in> set (c_participants c))"

text \<open>
  \<^verbatim>\<open>app.post('/api/conversations', ...)\<close>. \<open>otherUserId\<close> is the string of the
  request body; the first test compares it with the string of the session's identifier
  (\<^verbatim>\<open>userId.toString() === otherUserId\<close>). The lookup then casts it: a string that
  is no \<^verbatim>\<open>ObjectId\<close> is rejected there and the answer is 500.
\<close>

definition getOrCreateConversation ::
  "store \<Rightarrow> oid \<Rightarrow> string \<Rightarrow> oid \<Rightarrow> int \<Rightarrow> (error + conversation) \<times> store" where
  "getOrCreateConversation st userId otherUserId new_id now =
     (if toString userId = otherUserId then (Inl InvalidOperation, st)
      else case castObjectId otherUserId of
             None \<Rightarrow> (Inl ServerError, st)
           | Some other \<Rightarrow>
               (case find (has_both userId other) (conversations st) of
                  Some conversation \<Rightarrow> (Inr conversation, st)
                | None \<Rightarrow>
                    (let conversation =
                           \<lparr> c_id = new_id, c_participants = [userId, other],
                             c_lastMessage = [], c_lastMessageTime = now, c_createdAt = now \<rparr>
                     in (Inr conversation,
                         st\<lparr>conversations := conversations st @ [conversation]\<rparr>))))"

text \<open>
  \<^verbatim>\<open>Message.updateMany({ conversationId, receiverId: userId, read: false }, { read: true })\<close>
\<close>

definition mark_read :: "oid \<Rightarrow> oid \<Rightarrow> message \<Rightarrow> message" where
  "mark_read conversationId userId m =
     (if m_conversationId m = conversationId \<and> m_receiverId m = userId \<and> \<not> m_read m
      then m\<lparr>m_read := True\<rparr> else m)"

text \<open>
  \<^verbatim>\<open>app.get('/api/messages/:conversationId', ...)\<close>. \<open>conversationId\<close> is the
  segment of the path; when it is no \<^verbatim>\<open>ObjectId\<close> the first lookup is rejected and
  the answer is 500. The messages are read before they are marked, so the answer shows
  the flags as they were. Messages with the same date stay in the order of the
  collection.
\<close>

definition listMessages :: "store \<Rightarrow> string \<Rightarrow> oid \<Rightarrow> (error + message list) \<times> store" where
  "listMessages st conversationId userId =
     (case castObjectId conversationId of
        None \<Rightarrow> (Inl ServerError, st)
      | Some cid \<Rightarrow>
          (case find (is_member cid userId) (conversations st) of
             None \<Rightarrow> (Inl AccessDenied, st)
           | Some conversation \<Rightarrow>
               (Inr (sort_key m_createdAt (filter (\<lambda>m. m_conversationId m = cid) (messages st))),
                st\<lparr>messages := map (mark_read cid userId) (messages st)\<rparr>)))"

text \<open>\<^verbatim>\<open>findByIdAndUpdate\<close> changes the first document with the identifier.\<close>

fun update_first :: "('a \<Rightarrow> bool) \<Rightarrow> ('a \<Rightarrow> 'a) \<Rightarrow> 'a list \<Rightarrow> 'a list" where
  "update_first P f [] = []"
| "update_first P f (x # xs) = (if P x then f x # xs else x # update_first P f xs)"

text \<open>
  \<^verbatim>\<open>app.post('/api/messages', ...)\<close>. \<open>conversationId\<close> is a string of the body;
  \<open>receiverId\<close> and \<open>message\<close> are strings of the body or missing. The schema declares
  both as \<^verbatim>\<open>required\<close>, \<open>receiverId\<close> as an \<^verbatim>\<open>ObjectId\<close>, and an empty string
  does not satisfy \<^verbatim>\<open>required\<close>: when one is missing, when \<open>receiverId\<close> is no
  \<^verbatim>\<open>ObjectId\<close> and when \<open>message\<close> is empty, \<^verbatim>\<open>newMessage.save()\<close> is
  rejected and the answer is 500. The answer holds the message as the handler built it;
  the store holds its text as written by \<open>store_text\<close>. \<open>now\<close> is the date of the
  message, \<open>later\<close> the one read for the conversation.
\<close>

definition appendMessage ::
  "store \<Rightarrow> string \<Rightarrow> oid \<Rightarrow> string option \<Rightarrow> text16 option \<Rightarrow> oid \<Rightarrow> int \<Rightarrow> int
     \<Rightarrow> (error + message) \<times> store" where
  "appendMessage st conversationId senderId receiverId message new_id now later =
     (case castObjectId conversationId of
        None \<Rightarrow> (Inl ServerError, st)
      | Some cid \<Rightarrow>
          (case find (is_member cid senderId) (conversations st) of
             None \<Rightarrow> (Inl AccessDenied, st)
           | Some conversation \<Rightarrow>
               (case (Option.bind receiverId castObjectId, message) of
                  (Some rid, Some body) \<Rightarrow>
                    if body = [] then (Inl ServerError, st)
                    else
                      (let newMessage =
                             \<lparr> m_id = new_id, m_conversationId = cid, m_senderId = senderId,
                               m_receiverId = rid, m_message = body, m_read = False,
                               m_createdAt = now \<rparr>
                       in (Inr newMessage,
                           st\<lparr> messages :=
                                 messages st @ [newMessage\<lparr>m_message := store_text body\<rparr>],
                               conversations :=
                                 update_first (\<lambda>c. c_id c = cid)
                                   (\<lambda>c. c\<lparr> c_lastMessage := store_text (take 100 body),
                                            c_lastMessageTime := later \<rparr>)
                                   (conversations st) \<rparr>))
                | _ \<Rightarrow> (Inl ServerError, st))))"

section \<open>Properties that the specification names\<close>

text \<open>At most one saved row for a pair of a user and a post.\<close>

definition saved_unique :: "store \<Rightarrow> bool" where
  "saved_unique st = distinct (map (\<lambda>s. (sp_userId s, sp_postId s)) (savedPosts st))"

text \<open>The number of conversations that hold both users.\<close>

definition pair_count :: "store \<Rightarrow> oid \<Rightarrow> oid \<Rightarrow> nat" where
  "pair_count st a b = length (filter (has_both a b) (conversations st))"

text \<open>The user is a participant of the conversation with this identifier.\<close>

definition participant :: "store \<Rightarrow> oid \<Rightarrow> oid \<Rightarrow> bool" where
  "participant st conversationId userId =
     list_ex (\<lambda>c. c_id c = conversationId \<and> userId \<in> set (c_participants c)) (conversations st)"

text \<open>
  Containment of a string in a text, letters compared without case: after the folding
  \<open>f\<close> of the cases, the string is a contiguous part of the text.
\<close>

definition ci_substring :: "(string \<Rightarrow> string) \<Rightarrow> string \<Rightarrow> string \<Rightarrow> bool" where
  "ci_substring f p t = sublist (f p) (f t)"

text \<open>
  The filters of a request, read on a listing: a text filter holds when the listing's
  field contains the given string; a price bound is the number that \<open>parseInt\<close> reads
  from the parameter; furnishing and gender are equal to the parameter; one of the
  preferences is contained in one of the listing's tags. A parameter that is missing or
  empty asks for nothing.
\<close>

definition field_contains ::
  "(string \<Rightarrow> string) \<Rightarrow> string option \<Rightarrow> string option \<Rightarrow> bool" where
  "field_contains f param v =
     (case param of None \<Rightarrow> True
      | Some s \<Rightarrow> s = [] \<or> (case v of None \<Rightarrow> False | Some t \<Rightarrow> ci_substring f s t))"

definition field_equals :: "string option \<Rightarrow> string option \<Rightarrow> bool" where
  "field_equals param v = (case param of None \<Rightarrow> True | Some s \<Rightarrow> s = [] \<or> v = Some s)"

definition at_least :: "string option \<Rightarrow> rat option \<Rightarrow> bool" where
  "at_least param v =
     (case param of None \<Rightarrow> True
      | Some s \<Rightarrow> s = [] \<or> (case v of None \<Rightarrow> False | Some x \<Rightarrow> price_ge x (Some (parseInt s))))"

definition at_most :: "string option \<Rightarrow> rat option \<Rightarrow> bool" where
  "at_most param v =
     (case param of None \<Rightarrow> True
      | Some s \<Rightarrow> s = [] \<or> (case v of None \<Rightarrow> False | Some x \<Rightarrow> price_le x (Some (parseInt s))))"

definition some_preference ::
  "(string \<Rightarrow> string) \<Rightarrow> prefs_param option \<Rightarrow> string list \<Rightarrow> bool" where
  "some_preference f param tags =
     (case param of None \<Rightarrow> True
      | Some (One s) \<Rightarrow> s = [] \<or> list_ex (ci_substring f s) tags
      | Some (Many ps) \<Rightarrow> list_ex (\<lambda>p. list_ex (ci_substring f p) tags) ps)"

definition satisfies_filters :: "(string \<Rightarrow> string) \<Rightarrow> request \<Rightarrow> listing \<Rightarrow> bool" where
  "satisfies_filters f r l =
     (field_contains f (state r) (l_state l)
      \<and> field_contains f (city r) (l_city l)
      \<and> field_contains f (location r) (l_location l)
      \<and> at_least (minPrice r) (l_price l)
      \<and> at_most (maxPrice r) (l_price l)
      \<and> field_equals (furnishing r) (l_furnishing l)
      \<and> field_equals (gender r) (l_gender l)
      \<and> some_preference f (preferences r) (l_prefs l))"

text \<open>
  A string with no metacharacter of regular expressions, and a request whose text
  filters are such strings.
\<close>

definition regex_meta :: "char \<Rightarrow> bool" where
  "regex_meta c = (c \<in> set (CHR 0x5C # ''^$.|?*+()[]{}''))"

definition plain :: "string \<Rightarrow> bool" where
  "plain s = list_all (\<lambda>c. \<not> regex_meta c) s"

definition opt_plain :: "string option \<Rightarrow> bool" where
  "opt_plain p = (case p of None \<Rightarrow> True | Some s \<Rightarrow> plain s)"

definition request_plain :: "request \<Rightarrow> bool" where
  "request_plain r =
     (opt_plain (state r) \<and> opt_plain (city r) \<and> opt_plain (location r)
      \<and> (case preferences r of None \<Rightarrow> True | Some (One s) \<Rightarrow> plain s
          | Some (Many ps) \<Rightarrow> list_all plain ps))"

section \<open>Example data\<close>

text \<open>
  An environment for the examples. Its engine reads a pattern made of ordinary ASCII
  characters and dots, where the dot stands for any character except a line feed and
  the letters A to Z are compared without case, which is what the engine of the store
  does with such a pattern on an ASCII text; it refuses every other pattern. It
  rejects every skip and limit that is no integer of 32 bits.
\<close>

definition to_lower :: "char \<Rightarrow> char" where
  "to_lower c =
     (case map_of (zip ''ABCDEFGHIJKLMNOPQRSTUVWXYZ'' ''abcdefghijklmnopqrstuvwxyz'') c of
        Some d \<Rightarrow> d
      | None \<Rightarrow> c)"

definition regex_supported :: "string \<Rightarrow> bool" where
  "regex_supported p =
     list_all (\<lambda>c. (\<not> regex_meta c \<or> c = CHR ''.'') \<and> (of_char c :: nat) < 128) p"

fun regex_match_here :: "string \<Rightarrow> string \<Rightarrow> bool" where
  "regex_match_here [] t = True"
| "regex_match_here (p # ps) [] = False"
| "regex_match_here (p # ps) (c # cs) =
     ((if p = CHR ''.'' then c \<noteq> CHR 0x0A else to_lower p = to_lower c)
      \<and> regex_match_here ps cs)"

fun regex_search :: "string \<Rightarrow> string \<Rightarrow> bool" where
  "regex_search p [] = regex_match_here p []"
| "regex_search p (c # cs) = (regex_match_here p (c # cs) \<or> regex_search p cs)"

definition example_regex :: "string \<Rightarrow> (string \<Rightarrow> bool) option" where
  "example_regex p = (if regex_supported p then Some (regex_search p) else None)"

definition example_env :: env where
  "example_env =
     \<lparr> regex_string = example_regex, regex_object = example_regex,
       case_fold = map to_lower, other_window = (\<lambda>sk lm xs. None) \<rparr>"

definition example_post :: listing where
  "example_post =
     \<lparr> l_id = 1, l_userId = 7,
       l_images = [''http://res.cloudinary.com/demo/image/upload/v1/flatmate-finder-uploads/room1.jpg''],
       l_price = Some 15000, l_furnishing = Some ''Furnished'', l_state = Some ''Karnataka'',
       l_city = Some ''Bengaluru'', l_location = Some ''Indiranagar'',
       l_prefs = [''Non-smoker'', ''Vegetarian''], l_gender = Some ''Any'', l_createdAt = 100 \<rparr>"

definition older_post :: listing where
  "older_post =
     \<lparr> l_id = 2, l_userId = 8, l_images = [], l_price = Some 9000,
       l_furnishing = Some ''Unfurnished'', l_state = Some ''Goa'', l_city = Some ''Panaji'',
       l_location = Some ''Miramar'', l_prefs = [], l_gender = Some ''Female'',
       l_createdAt = 90 \<rparr>"

definition example_conversation :: conversation where
  "example_conversation =
     \<lparr> c_id = 32, c_participants = [7, 8], c_lastMessage = [], c_lastMessageTime = 50,
       c_createdAt = 50 \<rparr>"

definition example_store :: store where
  "example_store =
     \<lparr> posts = [example_post], savedPosts = [], conversations = [example_conversation],
       messages = [] \<rparr>"

text \<open>The code units of an ASCII string.\<close>

definition units :: "string \<Rightarrow> text16" where
  "units s = map (\<lambda>c. of_nat (of_char c)) s"

definition example_message1 :: message where
  "example_message1 =
     \<lparr> m_id = 40, m_conversationId = 32, m_senderId = 7, m_receiverId = 8,
       m_message = units ''Is the room still free?'', m_read = False, m_createdAt = 60 \<rparr>"

definition example_message2 :: message where
  "example_message2 =
     \<lparr> m_id = 41, m_conversationId = 32, m_senderId = 8, m_receiverId = 7,
       m_message = units ''Hello'', m_read = False, m_createdAt = 55 \<rparr>"

definition chat_store :: store where
  "chat_store = example_store\<lparr>messages := [example_message1, example_message2]\<rparr>"

definition no_filters :: request where
  "no_filters =
     \<lparr> state = None, city = None, location = None, minPrice = None, maxPrice = None,
       furnishing = None, gender = None, preferences = None, sortBy = None, page = None,
       limit = None \<rparr>"

text \<open>The strings of the identifiers 1, 7, 8, 9, 10 and 32; the last but one in upper case.\<close>

definition id1 :: string where "id1 = ''000000000000000000000001''"
definition id7 :: string where "id7 = ''000000000000000000000007''"
definition id8 :: string where "id8 = ''000000000000000000000008''"
definition id9 :: string where "id9 = ''000000000000000000000009''"
definition id10_upper :: string where "id10_upper = ''00000000000000000000000A''"
definition id32 :: string where "id32 = ''000000000000000000000020''"

section \<open>Auxiliary facts\<close>

lemma bit_length_bound: "n < 2 ^ k \<Longrightarrow> bit_length n \<le> k"
proof (induction k arbitrary: n)
  case 0
  then show ?case by (simp add: bit_length.simps)
next
  case (Suc k)
  show ?case
  proof (cases "n = 0")
    case True
    then show ?thesis by (simp add: bit_length.simps)
  next
    case False
    from Suc.prems have "n div 2 < 2 ^ k" by simp
    then have "bit_length (n div 2) \<le> k" by (rule Suc.IH)
    then show ?thesis using False by (subst bit_length.simps) simp
  qed
qed

lemma round_nat_exact: "n < 2 ^ 53 \<Longrightarrow> round_nat n = Some n"
proof -
  assume a: "n < 2 ^ 53"
  then have "bit_length n - 53 = 0" using bit_length_bound [of n 53] by simp
  moreover have "\<not> (2::nat) ^ 1024 \<le> n"
  proof -
    have "(2::nat) ^ 53 \<le> 2 ^ 1024" by (rule power_increasing) simp_all
    then show ?thesis using a by simp
  qed
  ultimately show ?thesis by (simp add: round_nat_def Let_def)
qed

lemma to_double_exact: "\<bar>i\<bar> < 2 ^ 53 \<Longrightarrow> to_double i = Num i"
proof -
  assume a: "\<bar>i\<bar> < 2 ^ 53"
  then have "nat \<bar>i\<bar> < 2 ^ 53" by (simp add: nat_less_iff)
  then have "round_nat (nat \<bar>i\<bar>) = Some (nat \<bar>i\<bar>)" by (rule round_nat_exact)
  then show ?thesis by (simp add: to_double_def)
qed

lemma parseInt_abc: "parseInt ''abc'' = NaN"
  by (simp add: parseInt_def is_ascii_space_def is_space2_def is_space3_def is_digit_def
      digit_val_def)

lemma parseInt_digits:
  "parseInt ''0'' = Num 0" "parseInt ''1'' = Num 1" "parseInt ''2'' = Num 2"
  "parseInt ''5000'' = Num 5000" "parseInt ''10000'' = Num 10000"
  "parseInt ''20000'' = Num 20000" "parseInt ''15000.9'' = Num 15000"
  "parseInt ''0abc'' = Num 0"
  by (simp_all add: parseInt_def is_ascii_space_def is_space2_def is_space3_def is_digit_def
      digit_val_def digits_value_def to_double_exact)

lemma parseInt_big: "parseInt ''9007199254740994'' = Num 9007199254740994"
  by (simp add: parseInt_def is_ascii_space_def is_space2_def is_space3_def is_digit_def
      digit_val_def digits_value_def to_double_def round_nat_def bit_length.simps Let_def)

lemma match_here_plain:
  "plain p \<Longrightarrow> regex_match_here p t = prefix (map to_lower p) (map to_lower t)"
proof (induction p arbitrary: t)
  case Nil
  then show ?case by simp
next
  case (Cons c cs)
  then have "c \<noteq> CHR ''.''" and "plain cs"
    by (auto simp: plain_def regex_meta_def)
  with Cons.IH show ?case by (cases t) auto
qed

lemma regex_search_plain:
  "plain p \<Longrightarrow> regex_search p t = ci_substring (map to_lower) p t"
proof (induction t)
  case Nil
  then show ?case by (simp add: match_here_plain ci_substring_def)
next
  case (Cons c cs)
  then show ?case
    by (simp add: match_here_plain ci_substring_def sublist_Cons_right)
qed

lemma example_env_literal:
  "\<forall>p g t. plain p \<longrightarrow> regex_string example_env p = Some g \<longrightarrow>
     g t = ci_substring (case_fold example_env) p t"
  "\<forall>p g t. plain p \<longrightarrow> regex_object example_env p = Some g \<longrightarrow>
     g t = ci_substring (case_fold example_env) p t"
  by (auto simp: example_env_def example_regex_def regex_search_plain split: if_splits)

lemma example_env_window:
  "\<forall>sk lm xs ys. other_window example_env sk lm xs = Some ys \<longrightarrow> set ys \<subseteq> set xs"
  "\<forall>s n xs ys. 0 \<le> s \<longrightarrow> 1 \<le> n \<longrightarrow> other_window example_env (Num s) (Num n) xs = Some ys \<longrightarrow>
     ys = take (nat n) (drop (nat s) xs)"
  by (simp_all add: example_env_def)

lemma keep_truthy_cases:
  "keep_truthy p = None \<and> (p = None \<or> p = Some []) \<or> (\<exists>s. p = Some s \<and> s \<noteq> [] \<and> keep_truthy p = Some s)"
  by (cases p) (auto simp: keep_truthy_def truthy_def)

lemma regex_filter_plain:
  assumes "\<forall>p g t. plain p \<longrightarrow> regex_string e p = Some g \<longrightarrow> g t = ci_substring f p t"
    and "opt_plain p" and "opt_accepted e (keep_truthy p)"
  shows "(case keep_truthy p of None \<Rightarrow> True | Some s \<Rightarrow> field_regex (regex_string e s) v)
         = field_contains f p v"
proof -
  show ?thesis
  proof (cases "truthy p")
    case False
    then have "keep_truthy p = None" "p = None \<or> p = Some []"
      by (auto simp: keep_truthy_def truthy_def split: option.splits)
    then show ?thesis by (auto simp: field_contains_def)
  next
    case True
    then obtain s where s: "p = Some s" "s \<noteq> []" "keep_truthy p = Some s"
      by (auto simp: keep_truthy_def truthy_def split: option.splits)
    from assms(3) s obtain g where g: "regex_string e s = Some g"
      by (auto simp: opt_accepted_def)
    from assms(2) s have "plain s" by (simp add: opt_plain_def)
    then have "\<And>t. g t = ci_substring f s t" using assms(1) g by blast
    then show ?thesis using s g
      by (auto simp: field_contains_def field_regex_def split: option.splits)
  qed
qed

lemma equals_filter:
  "(case keep_truthy p of None \<Rightarrow> True | Some s \<Rightarrow> v = Some s) = field_equals p v"
  using keep_truthy_cases [of p] by (auto simp: field_equals_def split: option.splits)

lemma price_filter_bounds:
  "(case price_filter mn mx of None \<Rightarrow> True | Some pc \<Rightarrow> price_matches pc v)
   = (at_least mn v \<and> at_most mx v)"
  by (cases mn; cases mx; cases v)
     (auto simp: price_filter_def truthy_def price_matches_def at_least_def at_most_def)

lemma prefs_filter_plain:
  assumes "\<forall>p g t. plain p \<longrightarrow> regex_object e p = Some g \<longrightarrow> g t = ci_substring f p t"
    and "case pp of None \<Rightarrow> True | Some (One s) \<Rightarrow> plain s | Some (Many ps) \<Rightarrow> list_all plain ps"
    and "case prefsArray pp of None \<Rightarrow> True
         | Some ps \<Rightarrow> list_all (\<lambda>p. regex_object e p \<noteq> None) ps"
  shows "(case prefsArray pp of None \<Rightarrow> True | Some ps \<Rightarrow> prefs_in e ps tags)
         = some_preference f pp tags"
proof -
  have one: "(case regex_object e p of None \<Rightarrow> False | Some g \<Rightarrow> list_ex g tags)
             = list_ex (ci_substring f p) tags"
    if "plain p" "regex_object e p \<noteq> None" for p
  proof -
    from that(2) obtain g where g: "regex_object e p = Some g" by auto
    then have "\<And>t. g t = ci_substring f p t" using assms(1) that(1) by blast
    then show ?thesis using g by (simp add: list_ex_iff)
  qed
  show ?thesis
  proof (cases pp)
    case None
    then show ?thesis by (simp add: some_preference_def)
  next
    case (Some a)
    show ?thesis
    proof (cases a)
      case (One s)
      with Some assms(2,3) show ?thesis
        by (auto simp: some_preference_def prefs_in_def one)
    next
      case (Many ps)
      with Some assms(2,3) have "\<forall>p \<in> set ps. plain p \<and> regex_object e p \<noteq> None"
        by (auto simp: list_all_iff)
      then have "list_ex (\<lambda>p. case regex_object e p of None \<Rightarrow> False | Some g \<Rightarrow> list_ex g tags) ps
                 = list_ex (\<lambda>p. list_ex (ci_substring f p) tags) ps"
        unfolding list_ex_iff [of _ ps] using one by blast
      with Some Many show ?thesis by (simp add: some_preference_def prefs_in_def)
    qed
  qed
qed

lemma matches_satisfies:
  assumes "\<forall>p g t. plain p \<longrightarrow> regex_string e p = Some g \<longrightarrow> g t = ci_substring f p t"
    and "\<forall>p g t. plain p \<longrightarrow> regex_object e p = Some g \<longrightarrow> g t = ci_substring f p t"
    and "request_plain r" and "query_accepted e (buildQuery r)"
  shows "matches e (buildQuery r) l = satisfies_filters f r l"
proof -
  have a: "opt_plain (state r)" "opt_plain (city r)" "opt_plain (location r)"
    using assms(3) by (simp_all add: request_plain_def)
  have b: "opt_accepted e (keep_truthy (state r))" "opt_accepted e (keep_truthy (city r))"
          "opt_accepted e (keep_truthy (location r))"
    using assms(4) by (simp_all add: query_accepted_def buildQuery_def)
  have c: "case preferences r of None \<Rightarrow> True | Some (One s) \<Rightarrow> plain s
           | Some (Many ps) \<Rightarrow> list_all plain ps"
    using assms(3) by (simp add: request_plain_def)
  have d: "case prefsArray (preferences r) of None \<Rightarrow> True
           | Some ps \<Rightarrow> list_all (\<lambda>p. regex_object e p \<noteq> None) ps"
    using assms(4) by (simp add: query_accepted_def buildQuery_def)
  show ?thesis
    by (simp add: matches_def buildQuery_def satisfies_filters_def
        regex_filter_plain [OF assms(1) a(1) b(1)]
        regex_filter_plain [OF assms(1) a(2) b(2)]
        regex_filter_plain [OF assms(1) a(3) b(3)]
        equals_filter price_filter_bounds
        prefs_filter_plain [OF assms(2) c d])
qed

lemma ceil_div_int:
  "\<lceil>(of_nat c :: rat) / of_int l\<rceil> = - ((- int c) div l)"
proof -
  have "\<lceil>(of_nat c :: rat) / of_int l\<rceil> = - \<lfloor>(of_int (- int c) :: rat) / of_int l\<rfloor>"
    by (simp add: ceiling_def)
  then show ?thesis by (simp only: floor_divide_of_int_eq)
qed

lemma set_sort_listings: "set (sort_listings so xs) = set xs"
  by (cases so) simp_all

lemma store_window_subset:
  assumes "\<forall>sk lm xs ys. other_window e sk lm xs = Some ys \<longrightarrow> set ys \<subseteq> set xs"
    and "store_window e sk lm xs = Some ys"
  shows "set ys \<subseteq> set xs"
proof (cases "small sk")
  case None
  then show ?thesis using assms by (simp add: store_window_def)
next
  case s: (Some s)
  show ?thesis
  proof (cases "small lm")
    case None
    then show ?thesis using assms s by (simp add: store_window_def)
  next
    case (Some n)
    then have "ys = (let zs = drop (nat s) xs in if n = 0 then zs
                     else if n < 0 then take (min (nat (- n)) 101) zs else take (nat n) zs)"
      using assms(2) s by (simp add: store_window_def split: if_splits)
    then show ?thesis by (auto simp: Let_def dest: in_set_takeD in_set_dropD)
  qed
qed

lemma search_Inr:
  assumes "search e db r = Inr resp"
  shows "query_castable (buildQuery r) \<and> query_accepted e (buildQuery r)
       \<and> store_window e (skip r) (limitNum r)
            (sort_listings (sortOptions r) (filter (matches e (buildQuery r)) db))
           = Some (data resp)
       \<and> pagination resp =
           \<lparr> currentPage = pageNum r,
             totalPages = js_ceil_div (length (filter (matches e (buildQuery r)) db)) (limitNum r),
             totalCount = length (filter (matches e (buildQuery r)) db),
             hasNextPage = js_lt (pageNum r)
               (js_ceil_div (length (filter (matches e (buildQuery r)) db)) (limitNum r)),
             hasPrevPage = js_gt (pageNum r) (Num 1),
             p_limit = limitNum r \<rparr>"
  using assms
  by (auto simp: search_def find_page_def countDocuments_def Let_def
      split: sum.splits if_splits option.splits simp del: js_ceil_div.simps)

lemma search_uncastable:
  "\<not> query_castable (buildQuery r) \<Longrightarrow> search e db r = Inl ServerError"
  by (simp add: search_def find_page_def)

lemma search_window_rejected:
  assumes "\<And>xs. store_window e (skip r) (limitNum r) xs = None"
  shows "search e db r = Inl ServerError"
  by (simp add: search_def find_page_def Let_def assms)

lemma search_ok:
  assumes "query_castable (buildQuery r)" and "query_accepted e (buildQuery r)"
    and "store_window e (skip r) (limitNum r) (sort_listings so ms) = Some ys"
    and "filter (matches e (buildQuery r)) db = ms" and "sortOptions r = so"
  shows "search e db r =
     Inr \<lparr> data = ys,
           pagination =
             \<lparr> currentPage = pageNum r,
               totalPages = js_ceil_div (length ms) (limitNum r),
               totalCount = length ms,
               hasNextPage = js_lt (pageNum r) (js_ceil_div (length ms) (limitNum r)),
               hasPrevPage = js_gt (pageNum r) (Num 1),
               p_limit = limitNum r \<rparr> \<rparr>"
  using assms
  by (simp add: search_def find_page_def countDocuments_def Let_def del: js_ceil_div.simps)

lemma js_skip_exact:
  assumes "1 \<le> p" and "1 \<le> n" and "(p - 1) * n < 2 ^ 53"
  shows "js_skip (Num p) (Num n) = Num ((p - 1) * n)"
proof -
  have "p - 1 \<le> (p - 1) * n" using assms(1,2) by (simp add: mult_le_cancel_left1)
  then have a: "\<bar>p - 1\<bar> < 2 ^ 53" using assms(1,3) by simp
  have b: "\<bar>(p - 1) * n\<bar> < 2 ^ 53" using assms by (simp add: abs_mult)
  show ?thesis
    using assms(2) by (simp add: js_skip_def js_mul_def to_double_exact [OF a] to_double_exact [OF b])
qed

lemma js_ceil_div_pos:
  assumes "1 \<le> n"
  shows "js_ceil_div c (Num n) = Num \<lceil>(of_nat c :: rat) / of_int n\<rceil>"
proof -
  have "0 < c \<Longrightarrow> (- int c) div n < 0" using assms by (simp add: pos_imp_zdiv_neg_iff)
  then have "0 < c \<Longrightarrow> \<lceil>(of_nat c :: rat) / of_int n\<rceil> \<noteq> 0"
    unfolding ceil_div_int by simp
  then show ?thesis using assms by auto
qed

lemma js_ceil_div_eval:
  "1 \<le> n \<Longrightarrow> js_ceil_div c (Num n) = Num (- ((- int c) div n))"
  by (simp only: js_ceil_div_pos ceil_div_int)

lemma window_exact:
  assumes "\<forall>s n xs ys. 0 \<le> s \<longrightarrow> 1 \<le> n \<longrightarrow> other_window e (Num s) (Num n) xs = Some ys \<longrightarrow>
             ys = take (nat n) (drop (nat s) xs)"
    and "0 \<le> s" and "1 \<le> n" and "store_window e (Num s) (Num n) xs = Some ys"
  shows "ys = take (nat n) (drop (nat s) xs)"
proof (cases "s < 2 ^ 31 \<and> n < 2 ^ 31")
  case True
  then show ?thesis using assms(2,3,4) by (simp add: store_window_def Let_def)
next
  case False
  then have "other_window e (Num s) (Num n) xs = Some ys"
    using assms(2,3,4) by (auto simp: store_window_def split: if_splits)
  then show ?thesis using assms(1,2,3) by blast
qed

lemma window_small:
  assumes "0 \<le> s" and "s < 2 ^ 31" and "- (2 ^ 31) \<le> n" and "n < 2 ^ 31"
  shows "store_window e (Num s) (Num n) xs =
           Some (let ys = drop (nat s) xs
                 in if n = 0 then ys
                    else if n < 0 then take (min (nat (- n)) 101) ys else take (nat n) ys)"
  using assms by (simp add: store_window_def)

lemma paging_defaults:
  "page r = None \<Longrightarrow> pageNum r = Num 1"
  "limit r = None \<Longrightarrow> limitNum r = Num 6"
  "sortBy r = None \<Longrightarrow> sortOptions r = CreatedAtDesc"
  "page r = None \<Longrightarrow> limit r = None \<Longrightarrow> skip r = Num 0"
  by (simp_all add: pageNum_def limitNum_def sortOptions_def skip_def js_skip_def js_mul_def
      to_double_def)

lemma first_window:
  "store_window e (Num 0) (Num 6) [x] = Some [x]"
  using window_small [of 0 6 e "[x]"] by simp

lemma empty_query:
  "buildQuery (no_filters\<lparr>page := pg, limit := lm\<rparr>) =
     \<lparr> q_state = None, q_city = None, q_location = None, q_price = None,
       q_furnishing = None, q_gender = None, q_prefs = None \<rparr>"
  by (simp add: buildQuery_def no_filters_def keep_truthy_def truthy_def price_filter_def)

lemma empty_query_facts:
  assumes "q = \<lparr> q_state = None, q_city = None, q_location = None, q_price = None,
       q_furnishing = None, q_gender = None, q_prefs = None \<rparr>"
  shows "filter (matches e q) db = db" "query_castable q" "query_accepted e q"
  using assms by (simp_all add: matches_def query_castable_def query_accepted_def opt_accepted_def)

lemma js_skip_NaN: "js_skip NaN x = NaN" "js_skip x NaN = NaN"
  by (simp_all add: js_skip_def js_mul_def)

lemma digit_range: "is_digit 10 c \<Longrightarrow> 48 \<le> (of_char c :: nat) \<and> (of_char c :: nat) \<le> 57"
  by (auto simp: is_digit_def digit_val_def Let_def split: if_splits)

lemma digit_no_space:
  assumes "is_digit 10 c"
  shows "\<not> is_ascii_space c" "\<not> is_space2 c b" "\<not> is_space3 c b d"
        "c \<noteq> CHR ''-''" "c \<noteq> CHR ''+''"
  using digit_range [OF assms]
  by (auto simp: is_ascii_space_def is_space2_def is_space3_def)

lemma skip_space_digit: "is_digit 10 c \<Longrightarrow> skip_js_space (c # cs) = c # cs"
proof (cases cs)
  case Nil
  assume "is_digit 10 c"
  then show ?thesis using Nil by (simp add: digit_no_space)
next
  case (Cons b bs)
  assume d: "is_digit 10 c"
  show ?thesis
  proof (cases bs)
    case Nil
    then show ?thesis using Cons d by (simp add: digit_no_space)
  next
    case (Cons a as)
    then show ?thesis using \<open>cs = b # bs\<close> d by (simp add: digit_no_space)
  qed
qed

lemma takeWhile_digits:
  assumes "list_all (is_digit 10) ds" and "rest = [] \<or> \<not> is_digit 10 (hd rest)"
  shows "takeWhile (is_digit 10) (ds @ rest) = ds"
proof -
  have "takeWhile (is_digit 10) rest = []" using assms(2) by (cases rest) auto
  then show ?thesis using assms(1) by (simp add: list_all_iff takeWhile_append2)
qed

lemma parseInt_leading_digits:
  assumes "ds \<noteq> []" and "list_all (is_digit 10) ds"
    and "rest = [] \<or> \<not> is_digit 10 (hd rest)"
    and "\<not> (ds = ''0'' \<and> rest \<noteq> [] \<and> (hd rest = CHR ''x'' \<or> hd rest = CHR ''X''))"
  shows "parseInt (ds @ rest) =
           (if digits_value 10 ds = 0 then Num 0 else to_double (int (digits_value 10 ds)))"
proof -
  from assms(1) obtain c cs where ds: "ds = c # cs" by (cases ds) auto
  with assms(2) have c: "is_digit 10 c" by simp
  have sp: "skip_js_space (ds @ rest) = ds @ rest"
    using skip_space_digit [OF c, of "cs @ rest"] ds by simp
  have sg: "strip_sign (ds @ rest) = (False, ds @ rest)"
    using ds digit_no_space(4,5) [OF c] by simp
  have hx: "strip_hex_prefix (ds @ rest) = (10, ds @ rest)"
  proof (cases "cs @ rest")
    case Nil
    then show ?thesis using ds by simp
  next
    case (Cons b bs)
    have "\<not> (c = CHR ''0'' \<and> (b = CHR ''x'' \<or> b = CHR ''X''))"
    proof (cases cs)
      case Nil
      then show ?thesis using assms(4) ds Cons by auto
    next
      case (Cons b' bs')
      then have "b = b'" "is_digit 10 b'" using \<open>cs @ rest = b # bs\<close> assms(2) ds by auto
      then show ?thesis using digit_range [of b] by auto
    qed
    then show ?thesis using ds Cons by auto
  qed
  have tw: "takeWhile (is_digit 10) (ds @ rest) = ds"
    using takeWhile_digits [OF assms(2,3)] .
  show ?thesis using assms(1) by (simp add: parseInt_def sp sg hx tw)
qed

lemma letter_no_digit:
  assumes "(65 \<le> (of_char c :: nat) \<and> (of_char c :: nat) \<le> 90)
         \<or> (97 \<le> (of_char c :: nat) \<and> (of_char c :: nat) \<le> 122)"
  shows "\<not> is_digit 10 c" "\<not> is_ascii_space c" "\<not> is_space2 c b" "\<not> is_space3 c b d"
        "c \<noteq> CHR ''-''" "c \<noteq> CHR ''+''" "c \<noteq> CHR ''0''"
  using assms
  by (auto simp: is_digit_def digit_val_def Let_def is_ascii_space_def is_space2_def is_space3_def)

lemma parseInt_letter:
  assumes "(65 \<le> (of_char c :: nat) \<and> (of_char c :: nat) \<le> 90)
         \<or> (97 \<le> (of_char c :: nat) \<and> (of_char c :: nat) \<le> 122)"
  shows "parseInt (c # cs) = NaN"
proof -
  note l = letter_no_digit [OF assms]
  have sp: "skip_js_space (c # cs) = c # cs"
  proof (cases cs)
    case Nil
    then show ?thesis by (simp add: l)
  next
    case (Cons b bs)
    then show ?thesis by (cases bs) (simp_all add: l)
  qed
  have sg: "strip_sign (c # cs) = (False, c # cs)" by (simp add: l)
  have hx: "strip_hex_prefix (c # cs) = (10, c # cs)" by (cases cs) (simp_all add: l)
  show ?thesis by (simp add: parseInt_def sp sg hx l)
qed

lemma hex_chars_table:
  "list_all (\<lambda>d. digit_val 16 (hex_char d) = Some d) [0..<16]"
  by code_simp

lemma digit_val_hex_char: "d < 16 \<Longrightarrow> digit_val 16 (hex_char d) = Some d"
  using hex_chars_table by (simp add: list_all_iff)

lemma length_hex_digits: "length (hex_digits k n) = k"
  by (induction k arbitrary: n) simp_all

lemma all_hex_digits: "list_all (is_digit 16) (hex_digits k n)"
  by (induction k arbitrary: n) (simp_all add: is_digit_def digit_val_hex_char)

lemma value_hex_digits: "digits_value 16 (hex_digits k n) = n mod 16 ^ k"
proof (induction k arbitrary: n)
  case 0
  then show ?case by (simp add: digits_value_def)
next
  case (Suc k)
  have "digits_value 16 (hex_digits (Suc k) n)
        = digits_value 16 (hex_digits k (n div 16)) * 16 + n mod 16"
    by (simp add: digits_value_def digit_val_hex_char)
  also have "\<dots> = (n div 16) mod 16 ^ k * 16 + n mod 16" by (simp add: Suc.IH)
  also have "\<dots> = n mod 16 ^ Suc k" by (simp add: mod_mult2_eq)
  finally show ?case .
qed

lemma cast_toString: "castObjectId (toString w) = Some w"
proof -
  have "unat w < 2 ^ 96" using unsigned_less [of w] by simp
  then have "unat w mod 16 ^ 24 = unat w" by simp
  then show ?thesis
    by (simp add: castObjectId_def toString_def length_hex_digits all_hex_digits value_hex_digits)
qed

lemma toString_other:
  assumes "castObjectId s = Some b" and "a \<noteq> b"
  shows "toString a \<noteq> s"
  using assms cast_toString [of a] by auto

lemma cast_examples:
  "castObjectId id1 = Some 1" "castObjectId id7 = Some 7" "castObjectId id8 = Some 8"
  "castObjectId id9 = Some 9" "castObjectId id10_upper = Some 10" "castObjectId id32 = Some 32"
  "castObjectId ''abc'' = None"
  by (simp_all add: castObjectId_def is_digit_def digit_val_def digits_value_def
      id1_def id7_def id8_def id9_def id10_upper_def id32_def)

lemma toString_10: "toString 10 = ''00000000000000000000000a''"
  by code_simp

lemma find_append_new:
  "find P xs = None \<Longrightarrow> P y \<Longrightarrow> find P (xs @ [y]) = Some y"
  by (induction xs) (auto split: if_splits)

lemma has_both_commute: "has_both a b = has_both b a"
  by (auto simp: has_both_def fun_eq_iff)

lemma distinct_key_count:
  "distinct (map f xs) \<Longrightarrow> length (filter (\<lambda>x. f x = k) xs) \<le> 1"
  by (induction xs) (auto simp: filter_empty_conv image_iff)

lemma saved_unique_count:
  assumes "saved_unique st" "find (same_pair u p) (savedPosts st) \<noteq> None"
  shows "length (filter (same_pair u p) (savedPosts st)) = 1"
proof -
  have eq: "same_pair u p = (\<lambda>s. (sp_userId s, sp_postId s) = (u, p))"
    by (auto simp: same_pair_def fun_eq_iff)
  have "length (filter (same_pair u p) (savedPosts st)) \<le> 1"
    unfolding eq
    using assms(1) distinct_key_count [of "\<lambda>s. (sp_userId s, sp_postId s)" "savedPosts st" "(u, p)"]
    by (simp add: saved_unique_def)
  moreover have "filter (same_pair u p) (savedPosts st) \<noteq> []"
    using assms(2) by (auto simp: find_None_iff filter_empty_conv)
  then have "0 < length (filter (same_pair u p) (savedPosts st))" by simp
  ultimately show ?thesis by arith
qed

lemma savePost_first:
  assumes "castObjectId s = Some pid"
    and "find (\<lambda>p. l_id p = pid) (posts st) = Some post"
  shows "\<exists>r1 st1. savePost st u s i1 t1 = (Inr r1, st1)
          \<and> find (same_pair u pid) (savedPosts st1) \<noteq> None
          \<and> posts st1 = posts st
          \<and> (saved_unique st \<longrightarrow> saved_unique st1)"
proof (cases "find (same_pair u pid) (savedPosts st)")
  case None
  let ?row = "\<lparr> sp_id = i1, sp_userId = u, sp_postId = pid, sp_savedAt = t1 \<rparr>"
  from None have no: "\<not> list_ex (same_pair u pid) (savedPosts st)"
    by (auto simp: find_None_iff list_ex_iff)
  have f: "find (same_pair u pid) (savedPosts st @ [?row]) \<noteq> None"
    using find_append_new [OF None, of ?row] by (simp add: same_pair_def)
  have d: "saved_unique st \<longrightarrow>
           distinct (map (\<lambda>s. (sp_userId s, sp_postId s)) (savedPosts st @ [?row]))"
    using no by (auto simp: saved_unique_def list_ex_iff same_pair_def)
  show ?thesis using assms None no f d
    by (simp add: savePost_def insert_savedPost_def saved_unique_def)
next
  case (Some a)
  then show ?thesis using assms by (simp add: savePost_def)
qed

lemma find_is_member:
  "(find (is_member cid u) (conversations st) = None) = (\<not> participant st cid u)"
  by (auto simp: find_None_iff participant_def list_ex_iff is_member_def)

lemma mark_read_eq:
  "mark_read cid u m = (if m_conversationId m = cid \<and> m_receiverId m = u then m\<lparr>m_read := True\<rparr> else m)"
  by (simp add: mark_read_def)

lemma update_first_member:
  assumes "\<And>c. c_id (f c) = c_id c \<and> c_participants (f c) = c_participants c"
  shows "list_ex (\<lambda>c. c_id c = cid \<and> u \<in> set (c_participants c)) (update_first P f xs)
         = list_ex (\<lambda>c. c_id c = cid \<and> u \<in> set (c_participants c)) xs"
  by (induction xs) (auto simp: assms)

lemma appendMessage_ok:
  assumes "castObjectId cs = Some cid" and "participant st cid sender"
    and "castObjectId rs = Some rid" and "body \<noteq> []"
  shows "appendMessage st cs sender (Some rs) (Some body) i now later =
          (Inr \<lparr> m_id = i, m_conversationId = cid, m_senderId = sender,
                 m_receiverId = rid, m_message = body, m_read = False,
                 m_createdAt = now \<rparr>,
           st\<lparr> messages := messages st @ [\<lparr> m_id = i, m_conversationId = cid, m_senderId = sender,
                 m_receiverId = rid, m_message = store_text body, m_read = False,
                 m_createdAt = now \<rparr>],
               conversations :=
                 update_first (\<lambda>c. c_id c = cid)
                   (\<lambda>c. c\<lparr> c_lastMessage := store_text (take 100 body), c_lastMessageTime := later \<rparr>)
                   (conversations st) \<rparr>)"
proof -
  from assms(2) obtain c where "find (is_member cid sender) (conversations st) = Some c"
    using find_is_member [of cid sender st] by auto
  then show ?thesis using assms(1,3,4) by (simp add: appendMessage_def Let_def)
qed

lemma find_unique:
  assumes "distinct (map f xs)" "x \<in> set xs" "Q x"
  shows "find (\<lambda>p. f p = f x \<and> Q p) xs = Some x"
  using assms by (induction xs) (auto simp: image_iff)

lemma set_delete_first:
  assumes "distinct (map f xs)" "x \<in> set xs" "Q x"
  shows "set (delete_first (\<lambda>p. f p = f x \<and> Q p) xs) = set xs - {x}"
  using assms by (induction xs) (auto simp: image_iff)

lemma example_destroy_calls:
  "destroy_calls example_post = [''flatmate-finder-uploads/room1'']"
  by (simp add: destroy_calls_def example_post_def List.map_filter_simps upload_folder_def)

section \<open>The claims\<close>

text \<open>
  Claim C1, amended. Let the engine of the store, on a pattern with no metacharacter,
  find the texts that contain the pattern, letters compared without case, and let the
  store return only documents that match the query. The text filters are regular
  expressions, so the claim holds for requests whose \<open>state\<close>, \<open>city\<close>, \<open>location\<close>
  and \<open>preferences\<close> hold no metacharacter (\<open>request_plain\<close>). For such a request,
  every listing that \<open>search\<close> returns is a listing of the collection and satisfies
  every filter that was given: the three text filters by containment without case, the
  price between the numbers that \<open>parseInt\<close> reads from \<open>minPrice\<close> and \<open>maxPrice\<close>,
  furnishing and gender by equality, and one of the preferences contained in one of
  the tags. The count that comes with the page is the number of all listings that
  satisfy them, so a filter that is missing or empty excludes nothing.
\<close>

theorem search_results_satisfy_filters:
  assumes "\<forall>p g t. plain p \<longrightarrow> regex_string e p = Some g \<longrightarrow>
             g t = ci_substring (case_fold e) p t"
    and "\<forall>p g t. plain p \<longrightarrow> regex_object e p = Some g \<longrightarrow>
             g t = ci_substring (case_fold e) p t"
    and "\<forall>sk lm xs ys. other_window e sk lm xs = Some ys \<longrightarrow> set ys \<subseteq> set xs"
    and "request_plain r" and "search e db r = Inr resp"
  shows "(\<forall>l \<in> set (data resp). l \<in> set db \<and> satisfies_filters (case_fold e) r l)
       \<and> totalCount (pagination resp)
           = length (filter (satisfies_filters (case_fold e) r) db)"
proof -
  note s = search_Inr [OF assms(5)]
  from s have acc: "query_accepted e (buildQuery r)" by simp
  have eq: "matches e (buildQuery r) = satisfies_filters (case_fold e) r"
    using matches_satisfies [OF assms(1,2,4) acc] by (simp add: fun_eq_iff)
  from s have w: "store_window e (skip r) (limitNum r)
            (sort_listings (sortOptions r) (filter (satisfies_filters (case_fold e) r) db))
           = Some (data resp)"
    unfolding eq by simp
  have "set (data resp) \<subseteq> set (filter (satisfies_filters (case_fold e) r) db)"
    using store_window_subset [OF assms(3) w] by (simp add: set_sort_listings)
  moreover from s have "totalCount (pagination resp)
      = length (filter (satisfies_filters (case_fold e) r) db)"
    unfolding eq by simp
  ultimately show ?thesis by auto
qed

theorem search_results_satisfy_filters_witness:
  "request_plain (no_filters\<lparr>minPrice := Some ''10000'', maxPrice := Some ''20000'',
        state := Some ''karn''\<rparr>)
   \<and> search example_env [example_post]
        (no_filters\<lparr>minPrice := Some ''10000'', maxPrice := Some ''20000'',
           state := Some ''karn''\<rparr>)
     = Inr \<lparr> data = [example_post],
          pagination = \<lparr> currentPage = Num 1, totalPages = Num 1, totalCount = 1,
            hasNextPage = False, hasPrevPage = False, p_limit = Num 6 \<rparr> \<rparr>
   \<and> satisfies_filters (case_fold example_env)
        (no_filters\<lparr>minPrice := Some ''10000'', maxPrice := Some ''20000'',
           state := Some ''karn''\<rparr>) example_post"
proof -
  let ?r = "no_filters\<lparr>minPrice := Some ''10000'', maxPrice := Some ''20000'',
        state := Some ''karn''\<rparr>"
  let ?resp = "\<lparr> data = [example_post],
          pagination = \<lparr> currentPage = Num 1, totalPages = Num 1, totalCount = 1,
            hasNextPage = False, hasPrevPage = False, p_limit = Num 6 \<rparr> \<rparr>"
  have pl: "request_plain ?r"
    by (simp add: request_plain_def opt_plain_def plain_def regex_meta_def no_filters_def)
  have q: "buildQuery ?r =
     \<lparr> q_state = Some ''karn'', q_city = None, q_location = None,
       q_price = Some \<lparr> gte = Some (Num 10000), lte = Some (Num 20000) \<rparr>,
       q_furnishing = None, q_gender = None, q_prefs = None \<rparr>"
    by (simp add: buildQuery_def no_filters_def keep_truthy_def truthy_def price_filter_def
        parseInt_digits)
  have sup: "regex_string example_env ''karn'' = Some (regex_search ''karn'')"
    by (simp add: example_env_def example_regex_def regex_supported_def regex_meta_def)
  have m: "filter (matches example_env (buildQuery ?r)) [example_post] = [example_post]"
    unfolding q
    by (simp add: matches_def field_regex_def sup price_matches_def example_post_def to_lower_def)
  have c: "query_castable (buildQuery ?r)" "query_accepted example_env (buildQuery ?r)"
    unfolding q
    by (simp_all add: query_castable_def bound_castable_def query_accepted_def
        opt_accepted_def sup)
  have f: "pageNum ?r = Num 1" "limitNum ?r = Num 6" "sortOptions ?r = CreatedAtDesc"
          "skip ?r = Num 0"
    by (simp_all add: paging_defaults no_filters_def)
  have w: "store_window example_env (skip ?r) (limitNum ?r)
             (sort_listings CreatedAtDesc [example_post]) = Some [example_post]"
    unfolding f by (simp add: first_window)
  have s: "search example_env [example_post] ?r = Inr ?resp"
    unfolding search_ok [OF c w m f(3)] f
    by (simp add: js_ceil_div_eval js_gt_def del: js_ceil_div.simps)
  have "\<forall>l \<in> set (data ?resp). l \<in> set [example_post]
          \<and> satisfies_filters (case_fold example_env) ?r l"
    using search_results_satisfy_filters [OF example_env_literal example_env_window(1) pl s]
    by blast
  then have "satisfies_filters (case_fold example_env) ?r example_post" by simp
  then show ?thesis using pl s by simp
qed

text \<open>
  Claim C1 as it is written fails twice. The request \<^verbatim>\<open>state=k.r\<close> returns the
  listing whose state is \<^verbatim>\<open>Karnataka\<close>, because the dot of the pattern stands for any
  character, although \<^verbatim>\<open>k.r\<close> is not contained in \<^verbatim>\<open>Karnataka\<close>. The request
  \<^verbatim>\<open>minPrice=15000.9\<close> returns the listing whose price is 15000, below the bound it
  names, because \<^verbatim>\<open>parseInt\<close> reads 15000.
\<close>

theorem search_filters_counterexample:
  "search example_env [example_post] (no_filters\<lparr>state := Some ''k.r''\<rparr>)
     = Inr \<lparr> data = [example_post],
          pagination = \<lparr> currentPage = Num 1, totalPages = Num 1, totalCount = 1,
            hasNextPage = False, hasPrevPage = False, p_limit = Num 6 \<rparr> \<rparr>
   \<and> l_state example_post = Some ''Karnataka''
   \<and> \<not> ci_substring (case_fold example_env) ''k.r'' ''Karnataka''
   \<and> search example_env [example_post] (no_filters\<lparr>minPrice := Some ''15000.9''\<rparr>)
     = Inr \<lparr> data = [example_post],
          pagination = \<lparr> currentPage = Num 1, totalPages = Num 1, totalCount = 1,
            hasNextPage = False, hasPrevPage = False, p_limit = Num 6 \<rparr> \<rparr>
   \<and> l_price example_post = Some 15000
   \<and> (15000 :: rat) < 150009 / 10"
proof -
  let ?r = "no_filters\<lparr>state := Some ''k.r''\<rparr>"
  let ?p = "no_filters\<lparr>minPrice := Some ''15000.9''\<rparr>"
  have q: "buildQuery ?r =
     \<lparr> q_state = Some ''k.r'', q_city = None, q_location = None, q_price = None,
       q_furnishing = None, q_gender = None, q_prefs = None \<rparr>"
    by (simp add: buildQuery_def no_filters_def keep_truthy_def truthy_def price_filter_def)
  have st: "l_state example_post = Some ''Karnataka''" "l_price example_post = Some 15000"
    by (simp_all add: example_post_def)
  have sup: "regex_string example_env ''k.r'' = Some (regex_search ''k.r'')"
    by (simp add: example_env_def example_regex_def regex_supported_def regex_meta_def)
  have m: "filter (matches example_env (buildQuery ?r)) [example_post] = [example_post]"
    unfolding q by (simp add: matches_def field_regex_def sup st to_lower_def)
  have c: "query_castable (buildQuery ?r)" "query_accepted example_env (buildQuery ?r)"
    unfolding q
    by (simp_all add: query_castable_def query_accepted_def opt_accepted_def sup)
  have f: "pageNum ?r = Num 1" "limitNum ?r = Num 6" "sortOptions ?r = CreatedAtDesc"
          "skip ?r = Num 0"
    by (simp_all add: paging_defaults no_filters_def)
  have w: "store_window example_env (skip ?r) (limitNum ?r)
             (sort_listings CreatedAtDesc [example_post]) = Some [example_post]"
    unfolding f by (simp add: first_window)
  have s: "search example_env [example_post] ?r
     = Inr \<lparr> data = [example_post],
          pagination = \<lparr> currentPage = Num 1, totalPages = Num 1, totalCount = 1,
            hasNextPage = False, hasPrevPage = False, p_limit = Num 6 \<rparr> \<rparr>"
    unfolding search_ok [OF c w m f(3)] f
    by (simp add: js_ceil_div_eval js_gt_def del: js_ceil_div.simps)
  have n: "\<not> ci_substring (case_fold example_env) ''k.r'' ''Karnataka''"
    by (simp add: ci_substring_def example_env_def to_lower_def sublist_Cons_right)
  have q2: "buildQuery ?p =
     \<lparr> q_state = None, q_city = None, q_location = None,
       q_price = Some \<lparr> gte = Some (Num 15000), lte = None \<rparr>,
       q_furnishing = None, q_gender = None, q_prefs = None \<rparr>"
    by (simp add: buildQuery_def no_filters_def keep_truthy_def truthy_def price_filter_def
        parseInt_digits)
  have m2: "filter (matches example_env (buildQuery ?p)) [example_post] = [example_post]"
    unfolding q2 by (simp add: matches_def price_matches_def st)
  have c2: "query_castable (buildQuery ?p)" "query_accepted example_env (buildQuery ?p)"
    unfolding q2
    by (simp_all add: query_castable_def bound_castable_def query_accepted_def opt_accepted_def)
  have f2: "pageNum ?p = Num 1" "limitNum ?p = Num 6" "sortOptions ?p = CreatedAtDesc"
          "skip ?p = Num 0"
    by (simp_all add: paging_defaults no_filters_def)
  have w2: "store_window example_env (skip ?p) (limitNum ?p)
             (sort_listings CreatedAtDesc [example_post]) = Some [example_post]"
    unfolding f2 by (simp add: first_window)
  have s2: "search example_env [example_post] ?p
     = Inr \<lparr> data = [example_post],
          pagination = \<lparr> currentPage = Num 1, totalPages = Num 1, totalCount = 1,
            hasNextPage = False, hasPrevPage = False, p_limit = Num 6 \<rparr> \<rparr>"
    unfolding search_ok [OF c2 w2 m2 f2(3)] f2
    by (simp add: js_ceil_div_eval js_gt_def del: js_ceil_div.simps)
  show ?thesis using s st n s2 by simp
qed

text \<open>
  Claim C2, amended. Let the store, when it answers for a skip and a limit that are
  integers, have skipped and limited by them. For a request whose page and limit are
  integers \<open>p \<ge> 1\<close> and \<open>n \<ge> 1\<close> (read by \<open>parseInt\<close>, or the defaults 1 and 6) with
  \<open>(p - 1) * n\<close> below \<open>2 ^ 53\<close>, every answer of \<open>search\<close> is a page such that:
  \<open>totalCount\<close> is the number of matching listings, \<open>totalPages\<close> is the ceiling of
  \<open>totalCount / n\<close>, \<open>hasNextPage\<close> says \<open>p < totalPages\<close>, \<open>hasPrevPage\<close> says
  \<open>1 < p\<close>, and the listings are the window of at most \<open>n\<close> items that starts at
  offset \<open>(p - 1) * n\<close> of the sorted matches. And \<open>search\<close> does answer when the store
  accepts the query and the offset and the limit are below \<open>2 ^ 31\<close>.
\<close>

theorem search_pagination:
  assumes "\<forall>s n xs ys. 0 \<le> s \<longrightarrow> 1 \<le> n \<longrightarrow> other_window e (Num s) (Num n) xs = Some ys \<longrightarrow>
             ys = take (nat n) (drop (nat s) xs)"
    and "pageNum r = Num p" and "1 \<le> p" and "limitNum r = Num n" and "1 \<le> n"
    and "(p - 1) * n < 2 ^ 53"
  shows "(\<forall>resp. search e db r = Inr resp \<longrightarrow>
            totalCount (pagination resp) = length (filter (matches e (buildQuery r)) db)
          \<and> totalPages (pagination resp)
              = Num \<lceil>(of_nat (totalCount (pagination resp)) :: rat) / of_int n\<rceil>
          \<and> currentPage (pagination resp) = Num p
          \<and> p_limit (pagination resp) = Num n
          \<and> hasNextPage (pagination resp)
              = (p < \<lceil>(of_nat (totalCount (pagination resp)) :: rat) / of_int n\<rceil>)
          \<and> hasPrevPage (pagination resp) = (1 < p)
          \<and> data resp = take (nat n) (drop (nat ((p - 1) * n))
                (sort_listings (sortOptions r) (filter (matches e (buildQuery r)) db)))
          \<and> length (data resp) \<le> nat n)
       \<and> (query_castable (buildQuery r) \<and> query_accepted e (buildQuery r)
            \<and> (p - 1) * n < 2 ^ 31 \<and> n < 2 ^ 31
          \<longrightarrow> (\<exists>resp. search e db r = Inr resp))"
proof -
  have sk: "skip r = Num ((p - 1) * n)"
    using js_skip_exact [OF assms(3,5,6)] assms(2,4) by (simp add: skip_def)
  have nn: "0 \<le> (p - 1) * n" using assms(3,5) by simp
  have answered: "totalCount (pagination resp) = length (filter (matches e (buildQuery r)) db)
          \<and> totalPages (pagination resp)
              = Num \<lceil>(of_nat (totalCount (pagination resp)) :: rat) / of_int n\<rceil>
          \<and> currentPage (pagination resp) = Num p
          \<and> p_limit (pagination resp) = Num n
          \<and> hasNextPage (pagination resp)
              = (p < \<lceil>(of_nat (totalCount (pagination resp)) :: rat) / of_int n\<rceil>)
          \<and> hasPrevPage (pagination resp) = (1 < p)
          \<and> data resp = take (nat n) (drop (nat ((p - 1) * n))
                (sort_listings (sortOptions r) (filter (matches e (buildQuery r)) db)))
          \<and> length (data resp) \<le> nat n" if "search e db r = Inr resp" for resp
  proof -
    note s = search_Inr [OF that]
    from s have w: "store_window e (Num ((p - 1) * n)) (Num n)
            (sort_listings (sortOptions r) (filter (matches e (buildQuery r)) db))
           = Some (data resp)"
      unfolding sk assms(4) by simp
    have d: "data resp = take (nat n) (drop (nat ((p - 1) * n))
                (sort_listings (sortOptions r) (filter (matches e (buildQuery r)) db)))"
      using window_exact [OF assms(1) nn assms(5) w] .
    then have l: "length (data resp) \<le> nat n" by simp
    from s have pg: "pagination resp =
           \<lparr> currentPage = Num p,
             totalPages = js_ceil_div (length (filter (matches e (buildQuery r)) db)) (Num n),
             totalCount = length (filter (matches e (buildQuery r)) db),
             hasNextPage = js_lt (Num p)
               (js_ceil_div (length (filter (matches e (buildQuery r)) db)) (Num n)),
             hasPrevPage = js_gt (Num p) (Num 1),
             p_limit = Num n \<rparr>"
      unfolding assms(2,4) by simp
    show ?thesis
      using d l unfolding pg js_ceil_div_pos [OF assms(5)] by (simp add: js_gt_def)
  qed
  have answers: "\<exists>resp. search e db r = Inr resp"
    if "query_castable (buildQuery r)" "query_accepted e (buildQuery r)"
       "(p - 1) * n < 2 ^ 31" "n < 2 ^ 31"
  proof -
    have "\<exists>ys. store_window e (skip r) (limitNum r)
            (sort_listings (sortOptions r) (filter (matches e (buildQuery r)) db)) = Some ys"
      unfolding sk assms(4) using window_small [OF nn that(3) _ that(4)] assms(5) by simp
    then obtain ys where "store_window e (skip r) (limitNum r)
            (sort_listings (sortOptions r) (filter (matches e (buildQuery r)) db)) = Some ys"
      by blast
    from search_ok [OF that(1,2) this refl refl] show ?thesis by blast
  qed
  show ?thesis using answered answers by blast
qed

theorem search_pagination_witness:
  "\<exists>resp. search example_env [older_post, example_post]
             (no_filters\<lparr>page := Some ''2'', limit := Some ''1''\<rparr>) = Inr resp
     \<and> totalCount (pagination resp) = 2 \<and> totalPages (pagination resp) = Num 2
     \<and> currentPage (pagination resp) = Num 2
     \<and> hasNextPage (pagination resp) = False \<and> hasPrevPage (pagination resp) = True
     \<and> data resp = [older_post]"
proof -
  let ?r = "no_filters\<lparr>page := Some ''2'', limit := Some ''1''\<rparr>"
  have q: "filter (matches example_env (buildQuery ?r)) [older_post, example_post]
             = [older_post, example_post]"
          "query_castable (buildQuery ?r)" "query_accepted example_env (buildQuery ?r)"
    by (rule empty_query_facts [OF empty_query])+
  have f: "pageNum ?r = Num 2" "limitNum ?r = Num 1" "sortOptions ?r = CreatedAtDesc"
    by (simp_all add: pageNum_def limitNum_def sortOptions_def no_filters_def parseInt_digits)
  have o: "sort_listings CreatedAtDesc [older_post, example_post] = [example_post, older_post]"
    by (simp add: older_post_def example_post_def)
  have a: "(1::int) \<le> 2" "(1::int) \<le> 1" "((2::int) - 1) * 1 < 2 ^ 53" by simp_all
  have b: "((2::int) - 1) * 1 < 2 ^ 31 \<and> (1::int) < 2 ^ 31" by simp
  have c: "\<lceil>(2::rat) / 1\<rceil> = 2" by simp
  from search_pagination [OF example_env_window(2) f(1) a(1) f(2) a(2) a(3),
      of "[older_post, example_post]"]
  show ?thesis
    unfolding q(1) f(3) o using q(2,3) b by (auto simp: numeral_2_eq_2)
qed

text \<open>
  Claim C2 as it is written, for every request, fails. With \<^verbatim>\<open>limit=0\<close> the store
  applies no limit and the division is by zero, so the page holds one listing, more
  than the limit, and \<open>totalPages\<close> is \<^verbatim>\<open>Infinity\<close>. With \<^verbatim>\<open>limit=-1\<close> the
  store returns one listing, more than the limit, and \<open>totalPages\<close> is \<open>- 1\<close>. With
  \<^verbatim>\<open>page=9007199254740994\<close> and \<^verbatim>\<open>limit=1\<close> the offset is not
  \<open>(page - 1) * limit\<close>, which no double represents, but 9007199254740992. With
  \<^verbatim>\<open>page=0\<close> the offset is negative, the store rejects it, and the answer is 500:
  there is no page at all.
\<close>

theorem search_limit_counterexample:
  "search example_env [example_post] (no_filters\<lparr>limit := Some ''0''\<rparr>)
     = Inr \<lparr> data = [example_post],
          pagination = \<lparr> currentPage = Num 1, totalPages = Infinity, totalCount = 1,
            hasNextPage = True, hasPrevPage = False, p_limit = Num 0 \<rparr> \<rparr>
   \<and> search example_env [example_post] (no_filters\<lparr>limit := Some ''-1''\<rparr>)
     = Inr \<lparr> data = [example_post],
          pagination = \<lparr> currentPage = Num 1, totalPages = Num (- 1), totalCount = 1,
            hasNextPage = False, hasPrevPage = False, p_limit = Num (- 1) \<rparr> \<rparr>
   \<and> pageNum (no_filters\<lparr>page := Some ''9007199254740994'', limit := Some ''1''\<rparr>)
       = Num 9007199254740994
   \<and> limitNum (no_filters\<lparr>page := Some ''9007199254740994'', limit := Some ''1''\<rparr>) = Num 1
   \<and> skip (no_filters\<lparr>page := Some ''9007199254740994'', limit := Some ''1''\<rparr>)
       = Num 9007199254740992
   \<and> search example_env [example_post] (no_filters\<lparr>page := Some ''0''\<rparr>) = Inl ServerError"
proof -
  let ?z = "no_filters\<lparr>limit := Some ''0''\<rparr>"
  let ?m = "no_filters\<lparr>limit := Some ''-1''\<rparr>"
  let ?b = "no_filters\<lparr>page := Some ''9007199254740994'', limit := Some ''1''\<rparr>"
  have qz: "buildQuery ?z = \<lparr> q_state = None, q_city = None, q_location = None, q_price = None,
       q_furnishing = None, q_gender = None, q_prefs = None \<rparr>"
    and qm: "buildQuery ?m = \<lparr> q_state = None, q_city = None, q_location = None, q_price = None,
       q_furnishing = None, q_gender = None, q_prefs = None \<rparr>"
    by (simp_all add: buildQuery_def no_filters_def keep_truthy_def truthy_def price_filter_def)
  note ez = empty_query_facts [OF qz]
  note em = empty_query_facts [OF qm]
  have minus: "parseInt ''-1'' = Num (- 1)"
    by (simp add: parseInt_def is_ascii_space_def is_space2_def is_space3_def is_digit_def
        digit_val_def digits_value_def to_double_exact)
  have ceil: "\<lceil>- 1 :: rat\<rceil> = - 1"
    using ceiling_of_int [of "- 1", where ?'a = rat] by simp
  have fz: "pageNum ?z = Num 1" "limitNum ?z = Num 0" "sortOptions ?z = CreatedAtDesc"
           "skip ?z = Num 0"
    by (simp_all add: pageNum_def limitNum_def sortOptions_def skip_def js_skip_def js_mul_def
        to_double_def no_filters_def parseInt_digits)
  have fm: "pageNum ?m = Num 1" "limitNum ?m = Num (- 1)" "sortOptions ?m = CreatedAtDesc"
           "skip ?m = NegZero"
    by (simp_all add: pageNum_def limitNum_def sortOptions_def skip_def js_skip_def js_mul_def
        to_double_def no_filters_def minus)
  have wz: "store_window example_env (skip ?z) (limitNum ?z)
              (sort_listings CreatedAtDesc [example_post]) = Some [example_post]"
    unfolding fz by (simp add: store_window_def)
  have wm: "store_window example_env (skip ?m) (limitNum ?m)
              (sort_listings CreatedAtDesc [example_post]) = Some [example_post]"
    unfolding fm by (simp add: store_window_def)
  have sz: "search example_env [example_post] ?z
     = Inr \<lparr> data = [example_post],
          pagination = \<lparr> currentPage = Num 1, totalPages = Infinity, totalCount = 1,
            hasNextPage = True, hasPrevPage = False, p_limit = Num 0 \<rparr> \<rparr>"
    unfolding search_ok [OF ez(2,3) wz ez(1) fz(3)] fz by (simp add: js_gt_def)
  have sm: "search example_env [example_post] ?m
     = Inr \<lparr> data = [example_post],
          pagination = \<lparr> currentPage = Num 1, totalPages = Num (- 1), totalCount = 1,
            hasNextPage = False, hasPrevPage = False, p_limit = Num (- 1) \<rparr> \<rparr>"
    unfolding search_ok [OF em(2,3) wm em(1) fm(3)] fm by (simp add: js_gt_def ceil)
  have fb: "pageNum ?b = Num 9007199254740994" "limitNum ?b = Num 1"
    by (simp_all add: pageNum_def limitNum_def no_filters_def parseInt_big parseInt_digits)
  have sub: "js_sub1 (Num 9007199254740994) = Num 9007199254740992"
    by (simp add: to_double_def round_nat_def bit_length.simps Let_def)
  have mul: "js_mul (Num 9007199254740992) (Num 1) = Num 9007199254740992"
    by (simp add: js_mul_def to_double_def round_nat_def bit_length.simps Let_def)
  have sb: "skip ?b = Num 9007199254740992"
    unfolding skip_def js_skip_def fb sub mul ..
  have f0: "skip (no_filters\<lparr>page := Some ''0''\<rparr>) = Num (- 6)"
           "limitNum (no_filters\<lparr>page := Some ''0''\<rparr>) = Num 6"
    by (simp_all add: pageNum_def limitNum_def skip_def js_skip_def js_mul_def no_filters_def
        parseInt_digits to_double_exact)
  have s0: "search example_env [example_post] (no_filters\<lparr>page := Some ''0''\<rparr>)
      = Inl ServerError"
    by (rule search_window_rejected) (simp add: f0 store_window_def)
  show ?thesis using sz sm fb sb s0 by simp
qed

text \<open>
  Claim C3, amended. A numeric parameter that is present is never treated as absent,
  whether it is a number or not: the handler uses what \<open>parseInt\<close> reads from it. A
  \<open>minPrice\<close> or \<open>maxPrice\<close> that is not empty always becomes the \<^verbatim>\<open>$gte\<close> or
  \<^verbatim>\<open>$lte\<close> bound of the price filter, and a \<open>page\<close> or \<open>limit\<close> the page number or
  the limit. A parameter that begins with decimal digits is read as the value of
  these digits, whatever follows them (the prefix \<^verbatim>\<open>0x\<close> apart): so \<^verbatim>\<open>0abc\<close> is
  read as zero. A parameter that begins with a letter is read as \<^verbatim>\<open>NaN\<close>; and
  whenever the parameter is read as \<^verbatim>\<open>NaN\<close>, a price bound cannot be cast to a
  number, so that the search answers 500 instead of listings, and the page number or
  the limit, and the offset, are \<^verbatim>\<open>NaN\<close> in place of the defaults.
\<close>

theorem numeric_parameter_is_parsed:
  "(minPrice r = Some s \<and> s \<noteq> [] \<longrightarrow>
      (\<exists>pc. q_price (buildQuery r) = Some pc \<and> gte pc = Some (parseInt s))
      \<and> (parseInt s = NaN \<longrightarrow> search e db r = Inl ServerError))
   \<and> (maxPrice r = Some s \<and> s \<noteq> [] \<longrightarrow>
      (\<exists>pc. q_price (buildQuery r) = Some pc \<and> lte pc = Some (parseInt s))
      \<and> (parseInt s = NaN \<longrightarrow> search e db r = Inl ServerError))
   \<and> (page r = Some s \<longrightarrow> pageNum r = parseInt s \<and> (parseInt s = NaN \<longrightarrow> skip r = NaN))
   \<and> (limit r = Some s \<longrightarrow> limitNum r = parseInt s \<and> (parseInt s = NaN \<longrightarrow> skip r = NaN))
   \<and> (ds \<noteq> [] \<and> list_all (is_digit 10) ds \<and> (rest = [] \<or> \<not> is_digit 10 (hd rest))
        \<and> \<not> (ds = ''0'' \<and> rest \<noteq> [] \<and> (hd rest = CHR ''x'' \<or> hd rest = CHR ''X''))
      \<longrightarrow> parseInt (ds @ rest)
            = (if digits_value 10 ds = 0 then Num 0 else to_double (int (digits_value 10 ds))))
   \<and> ((65 \<le> (of_char c :: nat) \<and> (of_char c :: nat) \<le> 90)
        \<or> (97 \<le> (of_char c :: nat) \<and> (of_char c :: nat) \<le> 122)
      \<longrightarrow> parseInt (c # cs) = NaN)"
proof -
  have mn: "(\<exists>pc. q_price (buildQuery r) = Some pc \<and> gte pc = Some (parseInt s))
            \<and> (parseInt s = NaN \<longrightarrow> search e db r = Inl ServerError)"
    if "minPrice r = Some s" "s \<noteq> []"
  proof -
    have p: "\<exists>pc. q_price (buildQuery r) = Some pc \<and> gte pc = Some (parseInt s)"
      using that by (simp add: buildQuery_def price_filter_def truthy_def)
    then have "parseInt s = NaN \<longrightarrow> \<not> query_castable (buildQuery r)"
      by (auto simp: query_castable_def bound_castable_def)
    then show ?thesis using p search_uncastable by blast
  qed
  have mx: "(\<exists>pc. q_price (buildQuery r) = Some pc \<and> lte pc = Some (parseInt s))
            \<and> (parseInt s = NaN \<longrightarrow> search e db r = Inl ServerError)"
    if "maxPrice r = Some s" "s \<noteq> []"
  proof -
    have p: "\<exists>pc. q_price (buildQuery r) = Some pc \<and> lte pc = Some (parseInt s)"
      using that by (simp add: buildQuery_def price_filter_def truthy_def)
    then have "parseInt s = NaN \<longrightarrow> \<not> query_castable (buildQuery r)"
      by (auto simp: query_castable_def bound_castable_def)
    then show ?thesis using p search_uncastable by blast
  qed
  have pg: "pageNum r = parseInt s \<and> (parseInt s = NaN \<longrightarrow> skip r = NaN)" if "page r = Some s"
    using that by (simp add: pageNum_def skip_def js_skip_NaN)
  have lm: "limitNum r = parseInt s \<and> (parseInt s = NaN \<longrightarrow> skip r = NaN)" if "limit r = Some s"
    using that by (simp add: limitNum_def skip_def js_skip_NaN)
  show ?thesis using mn mx pg lm parseInt_leading_digits [of ds rest] parseInt_letter [of c cs]
    by blast
qed

theorem numeric_parameter_is_parsed_witness:
  "parseInt ''abc'' = NaN
   \<and> search example_env [example_post]
        (no_filters\<lparr>minPrice := Some ''abc'', maxPrice := Some ''abc'', page := Some ''abc'',
           limit := Some ''abc''\<rparr>) = Inl ServerError
   \<and> pageNum (no_filters\<lparr>minPrice := Some ''abc'', maxPrice := Some ''abc'', page := Some ''abc'',
           limit := Some ''abc''\<rparr>) = NaN
   \<and> limitNum (no_filters\<lparr>minPrice := Some ''abc'', maxPrice := Some ''abc'', page := Some ''abc'',
           limit := Some ''abc''\<rparr>) = NaN
   \<and> parseInt (''12'' @ ''abc'') = Num 12"
proof -
  let ?r = "no_filters\<lparr>minPrice := Some ''abc'', maxPrice := Some ''abc'', page := Some ''abc'',
           limit := Some ''abc''\<rparr>"
  have f: "minPrice ?r = Some ''abc''" "maxPrice ?r = Some ''abc''" "page ?r = Some ''abc''"
          "limit ?r = Some ''abc''" "''abc'' \<noteq> []"
    by (simp_all add: no_filters_def)
  have l: "(65 \<le> (of_char CHR ''a'' :: nat) \<and> (of_char CHR ''a'' :: nat) \<le> 90)
        \<or> (97 \<le> (of_char CHR ''a'' :: nat) \<and> (of_char CHR ''a'' :: nat) \<le> 122)"
    by simp
  have d: "''12'' \<noteq> [] \<and> list_all (is_digit 10) ''12''
           \<and> (''abc'' = [] \<or> \<not> is_digit 10 (hd ''abc''))
           \<and> \<not> (''12'' = ''0'' \<and> ''abc'' \<noteq> [] \<and> (hd ''abc'' = CHR ''x'' \<or> hd ''abc'' = CHR ''X''))"
    by (simp add: is_digit_def digit_val_def)
  have v: "digits_value 10 ''12'' = 12" "to_double 12 = Num 12"
    by (simp_all add: digits_value_def digit_val_def to_double_exact)
  from numeric_parameter_is_parsed [of ?r "''abc''" example_env "[example_post]" "''12''" "''abc''"
      "CHR ''a''" "''bc''"]
  show ?thesis using f l d v by simp
qed

text \<open>
  Claim C3 as it is written fails. With \<^verbatim>\<open>minPrice=abc\<close> the query has a price
  condition where the request without \<open>minPrice\<close> has none, and the search fails where
  that request returns the listing; with \<^verbatim>\<open>page=abc\<close> the page number is
  \<^verbatim>\<open>NaN\<close>, not the default. And \<^verbatim>\<open>minPrice=0abc\<close>, which is no number, is read
  as zero: the bound of the price filter is 0.
\<close>

theorem unparsable_parameter_counterexample:
  "parseInt ''abc'' = NaN
   \<and> q_price (buildQuery (no_filters\<lparr>minPrice := Some ''abc''\<rparr>))
       = Some \<lparr> gte = Some NaN, lte = None \<rparr>
   \<and> q_price (buildQuery no_filters) = None
   \<and> search example_env [example_post] (no_filters\<lparr>minPrice := Some ''abc''\<rparr>) = Inl ServerError
   \<and> search example_env [example_post] no_filters
       = Inr \<lparr> data = [example_post],
            pagination = \<lparr> currentPage = Num 1, totalPages = Num 1, totalCount = 1,
              hasNextPage = False, hasPrevPage = False, p_limit = Num 6 \<rparr> \<rparr>
   \<and> pageNum (no_filters\<lparr>page := Some ''abc''\<rparr>) = NaN
   \<and> pageNum no_filters = Num 1
   \<and> q_price (buildQuery (no_filters\<lparr>minPrice := Some ''0abc''\<rparr>))
       = Some \<lparr> gte = Some (Num 0), lte = None \<rparr>"
proof -
  have a: "q_price (buildQuery (no_filters\<lparr>minPrice := Some ''abc''\<rparr>))
       = Some \<lparr> gte = Some NaN, lte = None \<rparr>"
    by (simp add: buildQuery_def price_filter_def truthy_def no_filters_def parseInt_abc)
  then have "\<not> query_castable (buildQuery (no_filters\<lparr>minPrice := Some ''abc''\<rparr>))"
    by (simp add: query_castable_def bound_castable_def)
  then have b: "search example_env [example_post] (no_filters\<lparr>minPrice := Some ''abc''\<rparr>)
      = Inl ServerError"
    by (rule search_uncastable)
  have c: "q_price (buildQuery no_filters) = None"
    by (simp add: buildQuery_def price_filter_def truthy_def no_filters_def)
  have d: "pageNum (no_filters\<lparr>page := Some ''abc''\<rparr>) = NaN" "pageNum no_filters = Num 1"
    by (simp_all add: pageNum_def no_filters_def parseInt_abc)
  have z: "q_price (buildQuery (no_filters\<lparr>minPrice := Some ''0abc''\<rparr>))
       = Some \<lparr> gte = Some (Num 0), lte = None \<rparr>"
    by (simp add: buildQuery_def price_filter_def truthy_def no_filters_def parseInt_digits)
  have q: "buildQuery no_filters = \<lparr> q_state = None, q_city = None, q_location = None,
       q_price = None, q_furnishing = None, q_gender = None, q_prefs = None \<rparr>"
    by (simp add: buildQuery_def no_filters_def keep_truthy_def truthy_def price_filter_def)
  note e = empty_query_facts [OF q]
  have f: "pageNum no_filters = Num 1" "limitNum no_filters = Num 6"
          "sortOptions no_filters = CreatedAtDesc" "skip no_filters = Num 0"
    by (simp_all add: paging_defaults no_filters_def)
  have w: "store_window example_env (skip no_filters) (limitNum no_filters)
             (sort_listings CreatedAtDesc [example_post]) = Some [example_post]"
    unfolding f by (simp add: first_window)
  have s: "search example_env [example_post] no_filters
       = Inr \<lparr> data = [example_post],
            pagination = \<lparr> currentPage = Num 1, totalPages = Num 1, totalCount = 1,
              hasNextPage = False, hasPrevPage = False, p_limit = Num 6 \<rparr> \<rparr>"
    unfolding search_ok [OF e(2,3) w e(1) f(3)] f
    by (simp add: js_ceil_div_eval js_gt_def del: js_ceil_div.simps)
  show ?thesis using a b c d z s parseInt_abc by simp
qed

text \<open>
  Claim C4, amended. Let a post of the collection belong to the user, the identifiers
  of the collection being distinct, and let \<open>postId\<close> be a string of the post's
  identifier. When the image service reports an error for one of the post's images,
  \<open>deleteOwned\<close> answers \<open>ServerError\<close> (the failure is passed on) and the store is
  unchanged: the post is not deleted. When it reports none, \<open>deleteOwned\<close> succeeds and
  removes exactly that post.
\<close>

theorem deleteOwned_images:
  assumes "post \<in> set (posts st)" and "l_userId post = userId"
    and "distinct (map l_id (posts st))" and "castObjectId postId = Some (l_id post)"
  shows "(list_ex fails (destroy_calls post) \<longrightarrow>
            deleteOwned fails st postId userId = (Inl ServerError, st))
       \<and> (\<not> list_ex fails (destroy_calls post) \<longrightarrow>
            (\<exists>st'. deleteOwned fails st postId userId = (Inr (), st')
               \<and> set (posts st') = set (posts st) - {post}
               \<and> savedPosts st' = savedPosts st \<and> conversations st' = conversations st
               \<and> messages st' = messages st))"
proof -
  have f: "find (\<lambda>p. l_id p = l_id post \<and> l_userId p = userId) (posts st) = Some post"
    using find_unique [of l_id "posts st" post "\<lambda>p. l_userId p = userId"] assms(1,2,3) by simp
  have d: "set (delete_first (\<lambda>p. l_id p = l_id post \<and> l_userId p = userId) (posts st))
           = set (posts st) - {post}"
    using set_delete_first [of l_id "posts st" post "\<lambda>p. l_userId p = userId"] assms(1,2,3)
    by simp
  have e: "l_images post = [] \<Longrightarrow> destroy_calls post = []"
    by (simp add: destroy_calls_def List.map_filter_simps)
  show ?thesis using f d e assms(4) by (auto simp: deleteOwned_def)
qed

theorem deleteOwned_images_witness:
  "deleteOwned (\<lambda>x. x = ''flatmate-finder-uploads/room1'') example_store id1 7
     = (Inl ServerError, example_store)
   \<and> (\<exists>st'. deleteOwned (\<lambda>x. False) example_store id1 7 = (Inr (), st') \<and> set (posts st') = {})"
proof -
  have a: "example_post \<in> set (posts example_store)" "l_userId example_post = 7"
          "distinct (map l_id (posts example_store))"
          "castObjectId id1 = Some (l_id example_post)"
    by (simp_all add: example_store_def example_post_def cast_examples)
  have b: "set (posts example_store) - {example_post} = {}"
    by (simp add: example_store_def)
  show ?thesis
    using deleteOwned_images [OF a, of "\<lambda>x. x = ''flatmate-finder-uploads/room1''"]
          deleteOwned_images [OF a, of "\<lambda>x. False"] b example_destroy_calls
    by auto
qed

text \<open>
  Claim C4 as it is written fails: when the deletion of the stored image fails, the
  owner's request answers 500 and the post is still in the collection.
\<close>

theorem deleteOwned_image_failure_counterexample:
  "l_images example_post \<noteq> [] \<and> example_post \<in> set (posts example_store)
   \<and> l_id example_post = 1 \<and> l_userId example_post = 7
   \<and> deleteOwned (\<lambda>x. True) example_store id1 7 = (Inl ServerError, example_store)"
proof -
  have a: "find (\<lambda>p. l_id p = 1 \<and> l_userId p = 7) (posts example_store) = Some example_post"
          "l_images example_post \<noteq> []" "example_post \<in> set (posts example_store)"
          "l_id example_post = 1" "l_userId example_post = 7"
    by (simp_all add: example_store_def example_post_def)
  show ?thesis using a by (simp add: deleteOwned_def cast_examples example_destroy_calls)
qed

text \<open>
  Claim C5, amended. Let \<open>postId\<close> be the string of an identifier. When no post has
  both this identifier and the owner \<open>userId\<close> (the post does not exist, or it belongs
  to somebody else), \<open>deleteOwned\<close> raises no exception: it gives the answer whose
  \<^verbatim>\<open>success\<close> is false, with status 403, and the store, and so the post when there is
  one, is unchanged, whatever the image service would do.
\<close>

theorem deleteOwned_not_owned:
  assumes "castObjectId postId = Some pid"
    and "\<forall>p \<in> set (posts st). l_id p = pid \<longrightarrow> l_userId p \<noteq> userId"
  shows "deleteOwned fails st postId userId = (Inl AccessDenied, st)
       \<and> \<not> success (fst (deleteOwned fails st postId userId))
       \<and> \<not> raised (fst (deleteOwned fails st postId userId))"
proof -
  have "find (\<lambda>p. l_id p = pid \<and> l_userId p = userId) (posts st) = None"
    using assms(2) by (auto simp: find_None_iff)
  then show ?thesis using assms(1) by (simp add: deleteOwned_def success_def raised_def)
qed

theorem deleteOwned_not_owned_witness:
  "deleteOwned (\<lambda>x. False) example_store id1 8 = (Inl AccessDenied, example_store)
   \<and> deleteOwned (\<lambda>x. False) example_store id9 7 = (Inl AccessDenied, example_store)
   \<and> \<not> raised (fst (deleteOwned (\<lambda>x. False) example_store id1 8))"
proof -
  have a: "\<forall>p \<in> set (posts example_store). l_id p = 1 \<longrightarrow> l_userId p \<noteq> 8"
    by (simp add: example_store_def example_post_def)
  have b: "\<forall>p \<in> set (posts example_store). l_id p = 9 \<longrightarrow> l_userId p \<noteq> 7"
    by (simp add: example_store_def example_post_def)
  show ?thesis
    using deleteOwned_not_owned [OF cast_examples(1) a, of "\<lambda>x. False"]
          deleteOwned_not_owned [OF cast_examples(4) b, of "\<lambda>x. False"]
    by (simp add: raised_def)
qed

text \<open>
  Claim C5 as it is written, for every delete request, fails: for a path segment that
  is no identifier, such as \<^verbatim>\<open>abc\<close>, no post with that identifier exists, and the
  lookup raises: the answer is the 500 of the \<^verbatim>\<open>catch\<close> block.
\<close>

theorem deleteOwned_malformed_id_counterexample:
  "castObjectId ''abc'' = None
   \<and> deleteOwned (\<lambda>x. False) example_store ''abc'' 7 = (Inl ServerError, example_store)
   \<and> raised (fst (deleteOwned (\<lambda>x. False) example_store ''abc'' 7))
   \<and> status_code ServerError = 500"
  by (simp add: deleteOwned_def cast_examples raised_def)

text \<open>
  Claim C6. For two distinct users \<open>a\<close> and \<open>b\<close>, \<open>getOrCreateConversation\<close> returns
  a conversation, and a second call for the same pair, in the same order or in the
  other, returns that same conversation (so the same identifier) and changes nothing,
  whichever strings \<open>sb\<close> and \<open>sb'\<close> of \<open>b\<close> and \<open>sa\<close> of \<open>a\<close> the requests hold. When
  at most one conversation held both users before, exactly one does afterwards. The
  calls run one after the other.
\<close>

theorem getOrCreateConversation_twice:
  assumes "a \<noteq> b" and "castObjectId sb = Some b" and "castObjectId sb' = Some b"
    and "castObjectId sa = Some a"
  shows "\<exists>c st1. getOrCreateConversation st a sb i1 t1 = (Inr c, st1)
          \<and> getOrCreateConversation st1 a sb' i2 t2 = (Inr c, st1)
          \<and> getOrCreateConversation st1 b sa i2 t2 = (Inr c, st1)
          \<and> (pair_count st a b \<le> 1 \<longrightarrow> pair_count st1 a b = 1)"
proof -
  have n: "toString a \<noteq> sb" "toString a \<noteq> sb'" "toString b \<noteq> sa"
    using toString_other [OF assms(2) assms(1)] toString_other [OF assms(3) assms(1)]
          toString_other [OF assms(4), of b] assms(1) by auto
  show ?thesis
  proof (cases "find (has_both a b) (conversations st)")
    case None
    let ?c = "\<lparr> c_id = i1, c_participants = [a, b], c_lastMessage = [],
                c_lastMessageTime = t1, c_createdAt = t1 \<rparr>"
    let ?st1 = "st\<lparr>conversations := conversations st @ [?c]\<rparr>"
    have first: "getOrCreateConversation st a sb i1 t1 = (Inr ?c, ?st1)"
      using n assms None by (simp add: getOrCreateConversation_def Let_def)
    have f: "find (has_both a b) (conversations st @ [?c]) = Some ?c"
      using find_append_new [OF None, of ?c] by (simp add: has_both_def)
    have again: "getOrCreateConversation ?st1 a sb' i2 t2 = (Inr ?c, ?st1)"
      using n assms f by (simp add: getOrCreateConversation_def)
    have swapped: "getOrCreateConversation ?st1 b sa i2 t2 = (Inr ?c, ?st1)"
      using n assms f by (simp add: getOrCreateConversation_def has_both_commute [of b a])
    have "filter (has_both a b) (conversations st) = []"
      using None by (auto simp: find_None_iff filter_empty_conv)
    then have "pair_count ?st1 a b = 1"
      by (simp add: pair_count_def has_both_def)
    with first again swapped show ?thesis by blast
  next
    case (Some c)
    have first: "getOrCreateConversation st a sb i1 t1 = (Inr c, st)"
      using n assms Some by (simp add: getOrCreateConversation_def)
    have again: "getOrCreateConversation st a sb' i2 t2 = (Inr c, st)"
      using n assms Some by (simp add: getOrCreateConversation_def)
    have swapped: "getOrCreateConversation st b sa i2 t2 = (Inr c, st)"
      using n assms Some by (simp add: getOrCreateConversation_def has_both_commute [of b a])
    have "filter (has_both a b) (conversations st) \<noteq> []"
      using Some by (auto simp: find_Some_iff filter_empty_conv)
    then have "0 < pair_count st a b" by (simp add: pair_count_def)
    then have "pair_count st a b \<le> 1 \<longrightarrow> pair_count st a b = 1" by arith
    with first again swapped show ?thesis by blast
  qed
qed

theorem getOrCreateConversation_twice_witness:
  "\<exists>c st1. getOrCreateConversation example_store 7 id9 33 60 = (Inr c, st1)
      \<and> getOrCreateConversation st1 7 id9 34 61 = (Inr c, st1)
      \<and> getOrCreateConversation st1 9 id7 34 61 = (Inr c, st1)
      \<and> pair_count st1 7 9 = 1"
proof -
  have a: "(7::oid) \<noteq> 9" by simp
  have b: "pair_count example_store 7 9 \<le> 1"
    by (simp add: pair_count_def example_store_def example_conversation_def has_both_def)
  show ?thesis
    using getOrCreateConversation_twice [OF a cast_examples(4) cast_examples(4) cast_examples(2),
        of example_store 33 60 34 61] b
    by blast
qed

text \<open>
  Claim C7, amended. Let \<open>conversationId\<close> be the string of an identifier \<open>cid\<close>.
  \<open>listMessages\<close> answers \<open>AccessDenied\<close> exactly when the user is no participant of
  the conversation \<open>cid\<close> (which covers a conversation that does not exist), and then
  changes nothing. For a participant it returns the messages of the conversation, all
  of them, by ascending date; and in the store every message of the conversation whose
  receiver is the user is marked as read, the other messages being as they were.
\<close>

theorem listMessages_access_and_read:
  assumes "castObjectId conversationId = Some cid"
  shows "(fst (listMessages st conversationId u) = Inl AccessDenied) = (\<not> participant st cid u)
   \<and> (\<not> participant st cid u \<longrightarrow> snd (listMessages st conversationId u) = st)
   \<and> (participant st cid u \<longrightarrow>
        (\<exists>msgs. fst (listMessages st conversationId u) = Inr msgs
           \<and> sorted (map m_createdAt msgs)
           \<and> mset msgs = mset (filter (\<lambda>m. m_conversationId m = cid) (messages st)))
        \<and> snd (listMessages st conversationId u) =
            st\<lparr>messages :=
                 map (\<lambda>m. if m_conversationId m = cid \<and> m_receiverId m = u
                          then m\<lparr>m_read := True\<rparr> else m) (messages st)\<rparr>)"
proof (cases "find (is_member cid u) (conversations st)")
  case None
  then have "\<not> participant st cid u" by (simp add: find_is_member)
  then show ?thesis using None assms by (simp add: listMessages_def)
next
  case (Some c)
  then have p: "participant st cid u" using find_is_member [of cid u st] by simp
  have m: "mark_read cid u = (\<lambda>m. if m_conversationId m = cid \<and> m_receiverId m = u
                          then m\<lparr>m_read := True\<rparr> else m)"
    by (rule ext) (simp add: mark_read_eq)
  show ?thesis using Some p assms by (simp add: listMessages_def m sorted_sort_key)
qed

theorem listMessages_access_and_read_witness:
  "participant chat_store 32 8 \<and> \<not> participant chat_store 32 9
   \<and> fst (listMessages chat_store id32 9) = Inl AccessDenied
   \<and> fst (listMessages chat_store id32 8) = Inr [example_message2, example_message1]
   \<and> messages (snd (listMessages chat_store id32 8)) =
       [example_message1\<lparr>m_read := True\<rparr>, example_message2]"
proof -
  have a: "participant chat_store 32 8"
    by (simp add: participant_def chat_store_def example_store_def example_conversation_def)
  have b: "\<not> participant chat_store 32 9"
    by (simp add: participant_def chat_store_def example_store_def example_conversation_def)
  have c: "fst (listMessages chat_store id32 8) = Inr [example_message2, example_message1]"
    by (simp add: listMessages_def cast_examples is_member_def chat_store_def example_store_def
        example_conversation_def example_message1_def example_message2_def)
  have d: "messages chat_store = [example_message1, example_message2]"
    by (simp add: chat_store_def)
  have e: "m_conversationId example_message1 = 32 \<and> m_receiverId example_message1 = 8
           \<and> m_receiverId example_message2 \<noteq> 8"
    by (simp add: example_message1_def example_message2_def)
  show ?thesis
    using listMessages_access_and_read [OF cast_examples(6), of chat_store 9]
          listMessages_access_and_read [OF cast_examples(6), of chat_store 8] a b c d e
    by simp
qed

text \<open>
  Claim C7 as it is written fails: for a path segment that is no identifier, such as
  \<^verbatim>\<open>abc\<close>, the user is a participant of no such conversation, and the answer is
  not \<open>AccessDenied\<close> but the 500 of the \<^verbatim>\<open>catch\<close> block.
\<close>

theorem listMessages_malformed_id_counterexample:
  "castObjectId ''abc'' = None
   \<and> \<not> list_ex (\<lambda>c. 9 \<in> set (c_participants c)) (conversations chat_store)
   \<and> listMessages chat_store ''abc'' 9 = (Inl ServerError, chat_store)
   \<and> fst (listMessages chat_store ''abc'' 9) \<noteq> Inl AccessDenied"
  by (simp add: listMessages_def cast_examples)
     (simp add: chat_store_def example_store_def example_conversation_def)

text \<open>
  Claim C8. For a post that exists, \<open>savePost\<close> succeeds, and a second \<open>savePost\<close> by
  the same user for the same post answers \<open>AlreadySaved\<close> and returns the store of the
  first call unchanged: no second row, whichever strings \<open>postId\<close> and \<open>postId'\<close> of
  the post's identifier the two requests hold. When the saved rows had at most one row
  for each pair before, they still have, and exactly one row for this pair.
\<close>

theorem savePost_twice:
  assumes "castObjectId postId = Some pid" and "castObjectId postId' = Some pid"
    and "\<exists>p \<in> set (posts st). l_id p = pid"
  shows "\<exists>r1 st1. savePost st u postId i1 t1 = (Inr r1, st1)
          \<and> savePost st1 u postId' i2 t2 = (Inr AlreadySaved, st1)
          \<and> (saved_unique st \<longrightarrow>
                saved_unique st1 \<and> length (filter (same_pair u pid) (savedPosts st1)) = 1)"
proof -
  from assms(3) obtain post where p: "find (\<lambda>p. l_id p = pid) (posts st) = Some post"
    by (cases "find (\<lambda>p. l_id p = pid) (posts st)") (auto simp: find_None_iff)
  from savePost_first [OF assms(1) p, of u i1 t1] obtain r1 st1 where
    s: "savePost st u postId i1 t1 = (Inr r1, st1)"
       "find (same_pair u pid) (savedPosts st1) \<noteq> None"
       "posts st1 = posts st" "saved_unique st \<longrightarrow> saved_unique st1"
    by blast
  have "savePost st1 u postId' i2 t2 = (Inr AlreadySaved, st1)"
    using s(2,3) p assms(2) by (auto simp: savePost_def)
  moreover have "saved_unique st \<longrightarrow> length (filter (same_pair u pid) (savedPosts st1)) = 1"
    using s(2,4) saved_unique_count by blast
  ultimately show ?thesis using s by blast
qed

theorem savePost_twice_witness:
  "\<exists>r1 st1. savePost example_store 8 id1 30 70 = (Inr r1, st1)
      \<and> savePost st1 8 id1 31 71 = (Inr AlreadySaved, st1)
      \<and> saved_unique st1 \<and> length (filter (same_pair 8 1) (savedPosts st1)) = 1"
proof -
  have a: "\<exists>p \<in> set (posts example_store). l_id p = 1"
    by (simp add: example_store_def example_post_def)
  have b: "saved_unique example_store"
    by (simp add: saved_unique_def example_store_def)
  show ?thesis
    using savePost_twice [OF cast_examples(1) cast_examples(1) a, of 8 30 70 31 71] b by blast
qed

text \<open>
  Claim C9, which the handler does not meet. \<open>getOrCreateConversation\<close> called by a
  user with the string of that same user's identifier as the session writes it, in
  lower case, answers \<open>InvalidOperation\<close> (status 400) and leaves the store as it was.
  It does not for the same identifier written in upper case: the strings differ, the
  lookup reads the string as the caller's identifier, and a conversation of the
  caller with the caller is created.
\<close>

theorem self_conversation_upper_case:
  "getOrCreateConversation st u (toString u) new_id now = (Inl InvalidOperation, st)
   \<and> castObjectId id10_upper = Some 10
   \<and> getOrCreateConversation example_store 10 id10_upper 33 60
       = (Inr \<lparr> c_id = 33, c_participants = [10, 10], c_lastMessage = [],
                c_lastMessageTime = 60, c_createdAt = 60 \<rparr>,
          example_store\<lparr>conversations :=
            [example_conversation,
             \<lparr> c_id = 33, c_participants = [10, 10], c_lastMessage = [],
               c_lastMessageTime = 60, c_createdAt = 60 \<rparr>]\<rparr>)"
proof -
  have a: "toString 10 \<noteq> id10_upper" by (simp add: toString_10 id10_upper_def)
  have b: "find (has_both 10 10) (conversations example_store) = None"
    by (simp add: example_store_def example_conversation_def has_both_def)
  have c: "conversations example_store = [example_conversation]"
    by (simp add: example_store_def)
  show ?thesis
    using a b c by (simp add: getOrCreateConversation_def cast_examples Let_def)
qed

text \<open>
  Claim C10, amended. When the sender is a participant of the conversation, the
  receiver is given as the string of an identifier and the text is not empty,
  \<open>appendMessage\<close> creates the message for any such receiver, a participant or not, the
  sender or not: the new message, unread, is appended with the receiver as it was
  given. A later \<open>listMessages\<close> by a participant \<open>u\<close> marks that message as read
  exactly when \<open>u\<close> is this receiver.
\<close>

theorem appendMessage_receiver_unchecked:
  assumes "castObjectId cs = Some cid" and "participant st cid sender"
    and "castObjectId rs = Some rid" and "body \<noteq> []" and "participant st cid u"
  shows "\<exists>m st1. appendMessage st cs sender (Some rs) (Some body) i now later = (Inr m, st1)
           \<and> m_receiverId m = rid \<and> m_senderId m = sender \<and> m_conversationId m = cid
           \<and> m_message m = body \<and> \<not> m_read m
           \<and> messages st1 = messages st @ [m\<lparr>m_message := store_text body\<rparr>]
           \<and> last (messages (snd (listMessages st1 cs u)))
               = m\<lparr>m_message := store_text body, m_read := (u = rid)\<rparr>"
proof -
  let ?m = "\<lparr> m_id = i, m_conversationId = cid, m_senderId = sender,
                 m_receiverId = rid, m_message = body, m_read = False,
                 m_createdAt = now \<rparr>"
  let ?s = "\<lparr> m_id = i, m_conversationId = cid, m_senderId = sender,
                 m_receiverId = rid, m_message = store_text body, m_read = False,
                 m_createdAt = now \<rparr>"
  let ?st1 = "st\<lparr> messages := messages st @ [?s],
               conversations :=
                 update_first (\<lambda>c. c_id c = cid)
                   (\<lambda>c. c\<lparr> c_lastMessage := store_text (take 100 body), c_lastMessageTime := later \<rparr>)
                   (conversations st) \<rparr>"
  have app: "appendMessage st cs sender (Some rs) (Some body) i now later = (Inr ?m, ?st1)"
    using appendMessage_ok [OF assms(1,2,3,4)] .
  have "participant ?st1 cid u"
    using assms(5) by (simp add: participant_def update_first_member)
  then obtain c where "find (is_member cid u) (conversations ?st1) = Some c"
    using find_is_member [of cid u ?st1] by auto
  then have "messages (snd (listMessages ?st1 cs u)) = map (mark_read cid u) (messages st @ [?s])"
    using assms(1) by (simp add: listMessages_def)
  then have "last (messages (snd (listMessages ?st1 cs u))) = ?s\<lparr>m_read := (u = rid)\<rparr>"
    by (simp add: mark_read_def)
  with app show ?thesis by simp
qed

theorem appendMessage_receiver_unchecked_witness:
  "\<exists>m st1. appendMessage example_store id32 7 (Some id9) (Some (units ''Hello'')) 42 80 81
        = (Inr m, st1)
      \<and> m_receiverId m = 9 \<and> \<not> participant example_store 32 9
      \<and> messages st1 = [m\<lparr>m_message := store_text (units ''Hello'')\<rparr>]
      \<and> last (messages (snd (listMessages st1 id32 8)))
          = m\<lparr>m_message := store_text (units ''Hello''), m_read := False\<rparr>"
proof -
  have a: "participant example_store 32 7" "participant example_store 32 8"
          "\<not> participant example_store 32 9"
    by (simp_all add: participant_def example_store_def example_conversation_def)
  have b: "units ''Hello'' \<noteq> []" by (simp add: units_def)
  have c: "messages example_store = []" by (simp add: example_store_def)
  show ?thesis
    using appendMessage_receiver_unchecked [OF cast_examples(6) a(1) cast_examples(4) b a(2),
        of 42 80 81] a(3) c
    by auto
qed

text \<open>
  Claim C10 as it is written, for every request whose sender is a participant, fails:
  the schema requires a receiver, which is an identifier, and a text. With no
  receiver, with a receiver that is no identifier, with an empty text or with no text,
  nothing is created and the answer is 500.
\<close>

theorem appendMessage_rejected_counterexample:
  "participant example_store 32 7
   \<and> appendMessage example_store id32 7 None (Some (units ''Hello'')) 42 80 81
       = (Inl ServerError, example_store)
   \<and> appendMessage example_store id32 7 (Some ''abc'') (Some (units ''Hello'')) 42 80 81
       = (Inl ServerError, example_store)
   \<and> appendMessage example_store id32 7 (Some id8) (Some []) 42 80 81
       = (Inl ServerError, example_store)
   \<and> appendMessage example_store id32 7 (Some id8) None 42 80 81
       = (Inl ServerError, example_store)"
proof -
  have a: "participant example_store 32 7"
    by (simp add: participant_def example_store_def example_conversation_def)
  then obtain c where "find (is_member 32 7) (conversations example_store) = Some c"
    using find_is_member [of 32 7 example_store] by auto
  then show ?thesis using a by (simp add: appendMessage_def cast_examples)
qed

end
